theory Spec2Isabelle
  imports Main "HOL-Library.Multiset"
begin

section \<open>JavaScript strings and the host\<close>

text \<open>
  A JavaScript string is a sequence of UTF-16 code units; the regular expressions of the
  sources have no \<open>u\<close> flag and work on code units as well. A string is therefore a list of
  code units, each a natural number. \<open>js\<close> reads an ASCII literal.
\<close>

type_synonym jstring = "nat list"

definition js :: "string \<Rightarrow> jstring" where
  "js s = map of_char s"

text \<open>The white space of \<open>String.prototype.trim\<close> and of the class \<open>\s\<close>.\<close>

definition isWhiteSpace :: "nat \<Rightarrow> bool" where
  "isWhiteSpace c \<longleftrightarrow>
     (9 \<le> c \<and> c \<le> 13) \<or> c = 32 \<or> c = 160 \<or> c = 5760 \<or> (8192 \<le> c \<and> c \<le> 8202) \<or>
     c = 8232 \<or> c = 8233 \<or> c = 8239 \<or> c = 8287 \<or> c = 12288 \<or> c = 65279"

definition trim :: "jstring \<Rightarrow> jstring" where
  "trim s = rev (dropWhile isWhiteSpace (rev (dropWhile isWhiteSpace s)))"

text \<open>Decimal rendering of an integer, as a template literal renders an integral number.\<close>

fun show_nat :: "nat \<Rightarrow> jstring" where
  "show_nat n = (if n < 10 then [48 + n] else show_nat (n div 10) @ [48 + n mod 10])"

declare show_nat.simps [simp del]

definition show_int :: "int \<Rightarrow> jstring" where
  "show_int i = (if i < 0 then 45 # show_nat (nat (- i)) else show_nat (nat i))"

text \<open>
  What the code takes from the JavaScript host: \<open>String.prototype.toLowerCase\<close> (the
  Unicode case tables), the \<open>Date\<close> constructor of local time fields read back with
  \<open>getTime\<close> (the host's time zone), and \<open>Date.now()\<close>. Every theorem below holds for every
  host.
\<close>

record host =
  toLowerCase :: "jstring \<Rightarrow> jstring"
  mkDate :: "int \<Rightarrow> int \<Rightarrow> int \<Rightarrow> int \<Rightarrow> int \<Rightarrow> int \<Rightarrow> int"
  dateNow :: int

section \<open>Regular expressions\<close>

text \<open>
  The regular expressions of the sources, as syntax trees run by a backtracking matcher
  that follows the matcher semantics of ECMAScript: a matcher takes a state and a
  continuation and returns the first success in priority order. \<open>Cls\<close> is a class of one
  code unit, \<open>Lit ci w\<close> the literal text \<open>w\<close> (matched without regard to ASCII case when \<open>ci\<close>,
  for the \<open>i\<close> flag), \<open>Rep mn mx greedy\<close> a quantifier (\<open>None\<close> for no upper bound), \<open>Grp i\<close> the
  capture group number \<open>i\<close>, \<open>Bol\<close> and \<open>Eol\<close> are \<open>^\<close> and \<open>$\<close> without the \<open>m\<close> flag, \<open>EolM\<close> is
  \<open>$\<close> with it.
\<close>

datatype rx =
    Cls "nat \<Rightarrow> bool"
  | Lit bool jstring
  | Seq rx rx
  | Alt rx rx
  | Rep nat "nat option" bool rx
  | Grp nat rx
  | Bol
  | Eol
  | EolM
  | Eps

text \<open>A state: the end index, the input from there on, and the captures, latest first.\<close>

type_synonym caps = "(nat \<times> jstring) list"
type_synonym rxstate = "nat \<times> jstring \<times> caps"

primrec rxsize :: "rx \<Rightarrow> nat" where
  "rxsize (Cls P) = 1"
| "rxsize (Lit ci w) = 1"
| "rxsize (Seq a b) = Suc (rxsize a + rxsize b)"
| "rxsize (Alt a b) = Suc (rxsize a + rxsize b)"
| "rxsize (Rep mn mx g a) = Suc (rxsize a)"
| "rxsize (Grp i a) = Suc (rxsize a)"
| "rxsize Bol = 1"
| "rxsize Eol = 1"
| "rxsize EolM = 1"
| "rxsize Eps = 1"

primrec rxmin :: "rx \<Rightarrow> nat" where
  "rxmin (Cls P) = 0"
| "rxmin (Lit ci w) = 0"
| "rxmin (Seq a b) = 0"
| "rxmin (Alt a b) = 0"
| "rxmin (Rep mn mx g a) = mn"
| "rxmin (Grp i a) = 0"
| "rxmin Bol = 0"
| "rxmin Eol = 0"
| "rxmin EolM = 0"
| "rxmin Eps = 0"

fun decr :: "nat option \<Rightarrow> nat option" where
  "decr None = None"
| "decr (Some m) = Some (m - 1)"

text \<open>With the \<open>i\<close> flag an ASCII letter of the pattern matches both its cases and nothing
  else (without the \<open>u\<close> flag a code unit from 128 on never folds to ASCII). \<open>litRest ci w r\<close> is
  the input after the literal \<open>w\<close> when \<open>r\<close> starts with it.\<close>

definition asciiLower :: "nat \<Rightarrow> nat" where
  "asciiLower c = (if 65 \<le> c \<and> c \<le> 90 then c + 32 else c)"

fun litRest :: "bool \<Rightarrow> jstring \<Rightarrow> jstring \<Rightarrow> jstring option" where
  "litRest ci [] r = Some r"
| "litRest ci (x # xs) [] = None"
| "litRest ci (x # xs) (y # ys) =
     (if (if ci then asciiLower y = asciiLower x else y = x) then litRest ci xs ys else None)"

text \<open>The length of a string as a sum, so that evaluation yields a numeral.\<close>

fun len :: "jstring \<Rightarrow> nat" where
  "len [] = 0"
| "len (x # xs) = len xs + 1"

definition isLineTerminator :: "nat \<Rightarrow> bool" where
  "isLineTerminator c \<longleftrightarrow> c = 10 \<or> c = 13 \<or> c = 8232 \<or> c = 8233"

text \<open>
  \<open>rxRun n e st k\<close>: match \<open>e\<close> from state \<open>st\<close> of an input of length \<open>n\<close>, then continue with
  \<open>k\<close>. In the quantifier, once the minimum is reached an iteration must move the end index
  forward (ECMAScript's RepeatMatcher rejects an empty iteration there), which also bounds
  the recursion. Captures inside a quantified atom are not cleared between iterations: no
  regular expression of the sources has a group under a quantifier that can iterate twice.
\<close>

function (sequential) rxRun ::
  "nat \<Rightarrow> rx \<Rightarrow> rxstate \<Rightarrow> (rxstate \<Rightarrow> rxstate option) \<Rightarrow> rxstate option" where
  "rxRun n (Cls P) (p, r, c) k =
     (case r of [] \<Rightarrow> None | x # xs \<Rightarrow> if P x then k (p + 1, xs, c) else None)"
| "rxRun n (Lit ci w) (p, r, c) k =
     (case litRest ci w r of None \<Rightarrow> None | Some r' \<Rightarrow> k (p + len w, r', c))"
| "rxRun n (Seq a b) st k = rxRun n a st (\<lambda>st'. rxRun n b st' k)"
| "rxRun n (Alt a b) st k =
     (case rxRun n a st k of Some z \<Rightarrow> Some z | None \<Rightarrow> rxRun n b st k)"
| "rxRun n (Grp i a) (p, r, c) k =
     rxRun n a (p, r, c) (\<lambda>(p', r', c'). k (p', r', (i, take (p' - p) r) # c'))"
| "rxRun n Bol (p, r, c) k = (if p = 0 then k (p, r, c) else None)"
| "rxRun n Eol (p, r, c) k = (if r = [] then k (p, r, c) else None)"
| "rxRun n EolM (p, r, c) k =
     (case r of [] \<Rightarrow> k (p, r, c) | x # xs \<Rightarrow> if isLineTerminator x then k (p, r, c) else None)"
| "rxRun n Eps st k = k st"
| "rxRun n (Rep mn mx g a) (p, r, c) k =
     (if mx = Some 0 then k (p, r, c)
      else if 0 < mn then
        rxRun n a (p, r, c) (\<lambda>st'. rxRun n (Rep (mn - 1) (decr mx) g a) st' k)
      else if g then
        (case rxRun n a (p, r, c)
                (\<lambda>st'. if p < fst st' \<and> fst st' \<le> n
                       then rxRun n (Rep 0 (decr mx) g a) st' k else None) of
           Some z \<Rightarrow> Some z
         | None \<Rightarrow> k (p, r, c))
      else
        (case k (p, r, c) of
           Some z \<Rightarrow> Some z
         | None \<Rightarrow>
             rxRun n a (p, r, c)
               (\<lambda>st'. if p < fst st' \<and> fst st' \<le> n
                      then rxRun n (Rep 0 (decr mx) g a) st' k else None)))"
  by pat_completeness auto
termination
  by (relation "inv_image (less_than <*lex*> less_than <*lex*> less_than)
        (\<lambda>(n, e, st, k). (rxsize e, rxmin e, n - fst st))") auto

text \<open>
  \<open>RegExp.prototype.exec\<close> without the \<open>g\<close> flag: the first start index, from the left, at
  which the expression matches; the result is the start index, the end index and the
  captures.
\<close>

fun rxSearch :: "nat \<Rightarrow> rx \<Rightarrow> nat \<Rightarrow> jstring \<Rightarrow> (nat \<times> nat \<times> caps) option" where
  "rxSearch n e i [] =
     (case rxRun n e (i, [], []) Some of Some (j, r, c) \<Rightarrow> Some (i, j, c) | None \<Rightarrow> None)"
| "rxSearch n e i (x # xs) =
     (case rxRun n e (i, x # xs, []) Some of
        Some (j, r, c) \<Rightarrow> Some (i, j, c)
      | None \<Rightarrow> rxSearch n e (i + 1) xs)"

definition rxExec :: "rx \<Rightarrow> jstring \<Rightarrow> (nat \<times> nat \<times> caps) option" where
  "rxExec e s = rxSearch (len s) e 0 s"

text \<open>\<open>re.test(s)\<close>, \<open>s.match(re)\<close> (the captures), and \<open>s.replace(re, '')\<close>.\<close>

definition rxTest :: "rx \<Rightarrow> jstring \<Rightarrow> bool" where
  "rxTest e s \<longleftrightarrow> rxExec e s \<noteq> None"

definition rxMatch :: "rx \<Rightarrow> jstring \<Rightarrow> caps option" where
  "rxMatch e s = (case rxExec e s of None \<Rightarrow> None | Some (i, j, c) \<Rightarrow> Some c)"

definition rxRemove :: "rx \<Rightarrow> jstring \<Rightarrow> jstring" where
  "rxRemove e s = (case rxExec e s of None \<Rightarrow> s | Some (i, j, c) \<Rightarrow> take i s @ drop j s)"

text \<open>
  \<open>m[i]\<close> of a match: \<open>None\<close> is JavaScript's \<open>undefined\<close>, a group that took no part in the
  match. \<open>grp\<close> reads a group that takes part in every match of its expression.
\<close>

definition capture :: "caps \<Rightarrow> nat \<Rightarrow> jstring option" where
  "capture c i = map_of c i"

definition grp :: "caps \<Rightarrow> nat \<Rightarrow> jstring" where
  "grp c i = (case map_of c i of Some s \<Rightarrow> s | None \<Rightarrow> [])"

text \<open>Building blocks.\<close>

definition chr :: "char \<Rightarrow> rx" where
  "chr ch = Cls (\<lambda>c. c = of_char ch)"

definition seqs :: "rx list \<Rightarrow> rx" where
  "seqs es = foldr Seq es Eps"

definition alts :: "rx list \<Rightarrow> rx" where
  "alts es = foldr Alt (butlast es) (last es)"

definition lit :: "string \<Rightarrow> rx" where
  "lit s = Lit False (js s)"

definition liti :: "string \<Rightarrow> rx" where
  "liti s = Lit True (js s)"

definition isDigit :: "nat \<Rightarrow> bool" where
  "isDigit c \<longleftrightarrow> 48 \<le> c \<and> c \<le> 57"

definition isWordChar :: "nat \<Rightarrow> bool" where
  "isWordChar c \<longleftrightarrow> isDigit c \<or> (65 \<le> c \<and> c \<le> 90) \<or> (97 \<le> c \<and> c \<le> 122) \<or> c = 95"

definition digit :: rx where
  "digit = Cls isDigit"

definition ws :: rx where
  "ws = Cls isWhiteSpace"

definition dot :: rx where
  "dot = Cls (\<lambda>c. \<not> isLineTerminator c)"

definition wordChar :: rx where
  "wordChar = Cls isWordChar"

definition star :: "rx \<Rightarrow> rx" where
  "star e = Rep 0 None True e"

definition plus :: "rx \<Rightarrow> rx" where
  "plus e = Rep 1 None True e"

definition plusLazy :: "rx \<Rightarrow> rx" where
  "plusLazy e = Rep 1 None False e"

definition opt :: "rx \<Rightarrow> rx" where
  "opt e = Rep 0 (Some 1) True e"

definition rep :: "nat \<Rightarrow> nat \<Rightarrow> rx \<Rightarrow> rx" where
  "rep m n e = Rep m (Some n) True e"

lemmas rx_defs =
  rxExec_def rxTest_def rxMatch_def rxRemove_def capture_def grp_def asciiLower_def chr_def
  seqs_def alts_def lit_def liti_def isDigit_def isWordChar_def digit_def ws_def
  dot_def wordChar_def star_def plus_def plusLazy_def opt_def rep_def isLineTerminator_def
  isWhiteSpace_def js_def

text \<open>
  \<open>parseInt\<close> on a string of decimal digits. The sources call it on capture groups of the
  shape \<open>\d{m,n}\<close> only, which are non-empty digit strings.
\<close>

definition parseInt :: "jstring \<Rightarrow> int" where
  "parseInt s = foldl (\<lambda>a c. 10 * a + (int c - 48)) 0 (takeWhile isDigit s)"

section \<open>Date-order inference (chatParser.ts)\<close>

datatype DateOrder = DMY | MDY

text \<open>The expression \<open>/^\[?(\d{1,2})\/(\d{1,2})\/(\d{2,4})/\<close> of \<open>inferDateOrder\<close>.\<close>

definition dateStartRegex :: rx where
  "dateStartRegex =
     seqs [Bol, opt (chr CHR ''[''), Grp 1 (rep 1 2 digit), chr CHR ''/'',
           Grp 2 (rep 1 2 digit), chr CHR ''/'', Grp 3 (rep 2 4 digit)]"

text \<open>One round of the scanning loop, on the counters \<open>(dmyEvidence, mdyEvidence)\<close>.\<close>

definition inferStep :: "nat \<times> nat \<Rightarrow> jstring \<Rightarrow> nat \<times> nat" where
  "inferStep ev line =
     (case rxMatch dateStartRegex line of
        None \<Rightarrow> ev
      | Some m \<Rightarrow>
          (let a = parseInt (grp m 1); b = parseInt (grp m 2)
           in ((if a > 12 then fst ev + 1 else fst ev), (if b > 12 then snd ev + 1 else snd ev))))"

definition inferDateOrder :: "jstring list \<Rightarrow> DateOrder" where
  "inferDateOrder lines =
     (let maxScan = min (length lines) 800;
          ev = foldl inferStep (0, 0) (take maxScan lines);
          dmyEvidence = fst ev; mdyEvidence = snd ev
      in if dmyEvidence > 0 \<and> mdyEvidence = 0 then DMY
         else if mdyEvidence > 0 \<and> dmyEvidence = 0 then MDY
         else if mdyEvidence > dmyEvidence then MDY
         else DMY)"

text \<open>
  The specification's words: the leading date token of a line and its first two numeric
  fields; a line is day-first evidence when the first field exceeds 12, month-first
  evidence when the second does.
\<close>

definition leadingDate :: "jstring \<Rightarrow> (int \<times> int) option" where
  "leadingDate line =
     (case rxMatch dateStartRegex line of
        None \<Rightarrow> None
      | Some m \<Rightarrow> Some (parseInt (grp m 1), parseInt (grp m 2)))"

definition dayFirstEvidence :: "jstring \<Rightarrow> bool" where
  "dayFirstEvidence line = (case leadingDate line of None \<Rightarrow> False | Some (a, b) \<Rightarrow> a > 12)"

definition monthFirstEvidence :: "jstring \<Rightarrow> bool" where
  "monthFirstEvidence line = (case leadingDate line of None \<Rightarrow> False | Some (a, b) \<Rightarrow> b > 12)"

section \<open>Data model (types/index.ts)\<close>

datatype MessageType =
  Ty_text | Ty_image | Ty_video | Ty_audio | Ty_document | Ty_sticker | Ty_call | Ty_system

datatype CallKind = Voice | Video

record QuotedMessage =
  q_sender :: jstring
  q_content :: jstring

text \<open>\<open>timestamp\<close> is the \<open>getTime()\<close> of the message's \<open>Date\<close>: milliseconds since the epoch.\<close>

record Message =
  msg_id :: jstring
  timestamp :: int
  sender :: jstring
  msg_type :: MessageType
  content :: jstring
  mediaUrl :: "jstring option"
  mediaFileName :: "jstring option"
  mediaMimeType :: "jstring option"
  mediaSize :: "nat option"
  driveFileId :: "jstring option"
  thumbnailUrl :: "jstring option"
  isOutgoing :: bool
  isEdited :: "bool option"
  quotedMessage :: "QuotedMessage option"
  callDuration :: "jstring option"
  callKind :: "CallKind option"
  callMissed :: "bool option"

section \<open>Cross-backup merger (chatMerger.ts)\<close>

text \<open>
  \<open>getMessageKey\<close>: the timestamp floored to the second, the sender lowercased and trimmed,
  then \<open>media:\<close> and the lowercased file name when \<open>mediaFileName\<close> is a non-empty string, the
  content lowercased and trimmed otherwise; joined by \<open>|\<close>.
\<close>

definition getMessageKey :: "host \<Rightarrow> Message \<Rightarrow> jstring" where
  "getMessageKey h msg =
     (let ts = (timestamp msg div 1000) * 1000;
          sn = trim (toLowerCase h (sender msg))
      in case mediaFileName msg of
           Some (c # cs) \<Rightarrow>
             show_int ts @ js ''|'' @ sn @ js ''|media:'' @ toLowerCase h (c # cs)
         | _ \<Rightarrow>
             show_int ts @ js ''|'' @ sn @ js ''|'' @ trim (toLowerCase h (content msg)))"

text \<open>The \<open>for\<close> loop of \<open>mergeMessages\<close> over the sorted pool, with \<open>seenKeys\<close> and \<open>merged\<close>.\<close>

fun mergeLoop :: "host \<Rightarrow> Message list \<Rightarrow> jstring set \<Rightarrow> Message list \<Rightarrow> Message list" where
  "mergeLoop h [] seenKeys merged = merged"
| "mergeLoop h (msg # rest) seenKeys merged =
     (let key = getMessageKey h msg
      in if key \<notin> seenKeys then mergeLoop h rest (insert key seenKeys) (merged @ [msg])
         else mergeLoop h rest seenKeys merged)"

text \<open>
  \<open>Array.prototype.sort\<close> with the comparator \<open>a.timestamp - b.timestamp\<close> is a stable sort by
  timestamp, as \<open>sort_key\<close> is.
\<close>

definition mergeMessages :: "host \<Rightarrow> Message list list \<Rightarrow> Message list" where
  "mergeMessages h allMessages =
     (case allMessages of
        [only] \<Rightarrow> sort_key timestamp only
      | _ \<Rightarrow> mergeLoop h (sort_key timestamp (concat allMessages)) {} [])"


section \<open>Chat parser: lines and timestamps (chatParser.ts)\<close>

text \<open>String operations of the parser: \<open>split\<close>, \<open>join\<close>, \<open>startsWith\<close>, \<open>endsWith\<close>, \<open>includes\<close>,
  \<open>lastIndexOf\<close>.\<close>

fun splitOn :: "nat \<Rightarrow> jstring \<Rightarrow> jstring list" where
  "splitOn sep [] = [[]]"
| "splitOn sep (x # xs) =
     (if x = sep then [] # splitOn sep xs
      else (case splitOn sep xs of [] \<Rightarrow> [[x]] | p # ps \<Rightarrow> (x # p) # ps))"

fun joinWith :: "nat \<Rightarrow> jstring list \<Rightarrow> jstring" where
  "joinWith sep [] = []"
| "joinWith sep [p] = p"
| "joinWith sep (p # q # ps) = p @ sep # joinWith sep (q # ps)"

fun startsWith :: "jstring \<Rightarrow> jstring \<Rightarrow> bool" where
  "startsWith s [] = True"
| "startsWith [] (p # ps) = False"
| "startsWith (x # xs) (p # ps) = (x = p \<and> startsWith xs ps)"

definition endsWith :: "jstring \<Rightarrow> jstring \<Rightarrow> bool" where
  "endsWith s suf = startsWith (rev s) (rev suf)"

fun includesStr :: "jstring \<Rightarrow> jstring \<Rightarrow> bool" where
  "includesStr [] sub = (sub = [])"
| "includesStr (x # xs) sub = (startsWith (x # xs) sub \<or> includesStr xs sub)"

text \<open>\<open>lastIndexFrom sub s i best\<close>: the last index of \<open>sub\<close> in a string of which \<open>s\<close> is the part
  from index \<open>i\<close> on, \<open>best\<close> being the last index found before \<open>i\<close>.\<close>

fun lastIndexFrom :: "jstring \<Rightarrow> jstring \<Rightarrow> nat \<Rightarrow> nat option \<Rightarrow> nat option" where
  "lastIndexFrom sub [] i best = (if sub = [] then Some i else best)"
| "lastIndexFrom sub (x # xs) i best =
     lastIndexFrom sub xs (i + 1) (if startsWith (x # xs) sub then Some i else best)"

definition lastIndexOf :: "jstring \<Rightarrow> jstring \<Rightarrow> nat option" where
  "lastIndexOf s sub = lastIndexFrom sub s 0 None"

text \<open>
  \<open>normalizeWaText\<close>: the invisible marks U+200E, U+200F, U+FEFF, U+202A to U+202E, U+2060,
  U+200B and U+00A0 are removed, every run of white space becomes one space, and the
  result is trimmed.
\<close>

definition isInvisibleMark :: "nat \<Rightarrow> bool" where
  "isInvisibleMark c \<longleftrightarrow>
     c = 8206 \<or> c = 8207 \<or> c = 65279 \<or> (8234 \<le> c \<and> c \<le> 8238) \<or> c = 8288 \<or> c = 8203 \<or> c = 160"

function collapseWhiteSpace :: "jstring \<Rightarrow> jstring" where
  "collapseWhiteSpace [] = []"
| "collapseWhiteSpace (x # xs) =
     (if isWhiteSpace x then 32 # collapseWhiteSpace (dropWhile isWhiteSpace xs)
      else x # collapseWhiteSpace xs)"
  by pat_completeness auto
termination
  by (relation "measure length") (auto simp: length_dropWhile_le less_Suc_eq_le)

definition normalizeWaText :: "jstring \<Rightarrow> jstring" where
  "normalizeWaText s = trim (collapseWhiteSpace (filter (\<lambda>c. \<not> isInvisibleMark c) s))"

text \<open>The date and the time of a line, shared by the expressions below:
  \<open>\d{1,2}\/\d{1,2}\/\d{2,4}\<close>, \<open>\d{1,2}:\d{2}(?::\d{2})?\<close> and \<open>(?:AM|PM|am|pm)?\<close>.\<close>

definition datePat :: rx where
  "datePat = seqs [rep 1 2 digit, chr CHR ''/'', rep 1 2 digit, chr CHR ''/'', rep 2 4 digit]"

definition clockPat :: rx where
  "clockPat = seqs [rep 1 2 digit, chr CHR '':'', rep 2 2 digit,
                    opt (seqs [chr CHR '':'', rep 2 2 digit])]"

definition meridiemPat :: rx where
  "meridiemPat = opt (alts [lit ''AM'', lit ''PM'', lit ''am'', lit ''pm''])"

text \<open>The class \<open>[-\<dots>]\<close> of a hyphen and an en dash (U+2013), and \<open>[^:]\<close>.\<close>

definition dash :: rx where
  "dash = Cls (\<lambda>c. c = 45 \<or> c = 8211)"

definition notColon :: rx where
  "notColon = Cls (\<lambda>c. c \<noteq> 58)"

definition androidRegex :: rx where
  "androidRegex =
     seqs [Bol, Grp 1 datePat, opt (chr CHR '',''), plus ws,
           Grp 2 (seqs [clockPat, star ws, meridiemPat]), star ws, dash, star ws,
           Grp 3 (plusLazy notColon), chr CHR '':'', star ws, Grp 4 (star dot), Eol]"

definition iosRegex :: rx where
  "iosRegex =
     seqs [Bol, chr CHR ''['', Grp 1 datePat, opt (chr CHR '',''), plus ws,
           Grp 2 (seqs [clockPat, star ws, meridiemPat]), chr CHR '']'', star ws,
           Grp 3 (plusLazy notColon), chr CHR '':'', star ws, Grp 4 (star dot), Eol]"

definition europeanRegex :: rx where
  "europeanRegex =
     seqs [Bol, Grp 1 datePat, opt (chr CHR '',''), plus ws,
           Grp 2 clockPat, star ws, dash, star ws,
           Grp 3 (plusLazy notColon), chr CHR '':'', star ws, Grp 4 (star dot), Eol]"

definition androidSystem :: rx where
  "androidSystem =
     seqs [Bol, Grp 1 datePat, opt (chr CHR '',''), plus ws,
           Grp 2 (seqs [clockPat, star ws, meridiemPat]), star ws, dash, star ws,
           Grp 3 (star dot), Eol]"

definition iosSystem :: rx where
  "iosSystem =
     seqs [Bol, chr CHR ''['', Grp 1 datePat, opt (chr CHR '',''), plus ws,
           Grp 2 (seqs [clockPat, star ws, meridiemPat]), chr CHR '']'', star ws,
           Grp 3 (star dot), Eol]"

text \<open>\<open>/^[^:]+?:\s/\<close>: the rest of a line looks like \<open>Sender: ...\<close>.\<close>

definition senderPrefixRegex :: rx where
  "senderPrefixRegex = seqs [Bol, plusLazy notColon, chr CHR '':'', ws]"

text \<open>\<open>/(\d{1,2}):(\d{2})(?::(\d{2}))?\s*(AM|PM|am|pm)?/\<close> of \<open>parseTimestamp\<close>.\<close>

definition timeRegex :: rx where
  "timeRegex =
     seqs [Grp 1 (rep 1 2 digit), chr CHR '':'', Grp 2 (rep 2 2 digit),
           opt (seqs [chr CHR '':'', Grp 3 (rep 2 2 digit)]), star ws,
           opt (Grp 4 (alts [lit ''AM'', lit ''PM'', lit ''am'', lit ''pm'']))]"

definition asciiUpper :: "nat \<Rightarrow> nat" where
  "asciiUpper c = (if 97 \<le> c \<and> c \<le> 122 then c - 32 else c)"

text \<open>
  \<open>parseTimestamp\<close>. The result is the \<open>getTime()\<close> of the \<open>Date\<close>, \<open>None\<close> for \<open>null\<close>. The
  meridiem group holds ASCII letters, on which \<open>toUpperCase\<close> is \<open>asciiUpper\<close>.
\<close>

definition parseTimestamp :: "host \<Rightarrow> jstring \<Rightarrow> jstring \<Rightarrow> DateOrder option \<Rightarrow> int option" where
  "parseTimestamp h datePart timePart dateOrderHint =
     (case splitOn 47 datePart of
        [d1, d2, d3] \<Rightarrow>
          (let part1 = parseInt d1; part2 = parseInt d2; part3 = parseInt d3;
               dm = (if dateOrderHint = Some DMY then (part1, part2)
                     else if dateOrderHint = Some MDY then (part2, part1)
                     else if part1 > 12 then (part1, part2)
                     else if part2 > 12 then (part2, part1)
                     else (part1, part2));
               dy = fst dm; mo = snd dm;
               yr = (if part3 < 100 then part3 + 2000 else part3)
           in case rxMatch timeRegex timePart of
                None \<Rightarrow> None
              | Some m \<Rightarrow>
                  (let hours0 = parseInt (grp m 1);
                       minutes = parseInt (grp m 2);
                       seconds = (case capture m 3 of Some (c # cs) \<Rightarrow> parseInt (c # cs) | _ \<Rightarrow> 0);
                       meridiem = map_option (map asciiUpper) (capture m 4);
                       hours = (if meridiem = Some (js ''PM'') \<and> hours0 < 12 then hours0 + 12
                                else if meridiem = Some (js ''AM'') \<and> hours0 = 12 then 0
                                else hours0)
                   in Some (mkDate h yr (mo - 1) dy hours minutes seconds)))
      | _ \<Rightarrow> None)"

record MessageMatch =
  mm_timestamp :: int
  mm_sender :: jstring
  mm_content :: jstring
  mm_line :: jstring
  mm_isSystemLine :: bool

text \<open>\<open>line.match(androidRegex) || line.match(iosRegex) || line.match(europeanRegex)\<close>.\<close>

fun firstMatch :: "rx list \<Rightarrow> jstring \<Rightarrow> caps option" where
  "firstMatch [] s = None"
| "firstMatch (e # es) s = (case rxMatch e s of Some m \<Rightarrow> Some m | None \<Rightarrow> firstMatch es s)"

definition matchMessageLine :: "host \<Rightarrow> jstring \<Rightarrow> DateOrder \<Rightarrow> MessageMatch option" where
  "matchMessageLine h line dateOrder =
     (case firstMatch [androidRegex, iosRegex, europeanRegex] line of
        None \<Rightarrow> None
      | Some m \<Rightarrow>
          (case parseTimestamp h (grp m 1) (grp m 2) (Some dateOrder) of
             None \<Rightarrow> None
           | Some ts \<Rightarrow>
               Some \<lparr> mm_timestamp = ts, mm_sender = normalizeWaText (grp m 3),
                      mm_content = normalizeWaText (grp m 4), mm_line = line,
                      mm_isSystemLine = False \<rparr>))"

definition matchSystemLine :: "host \<Rightarrow> jstring \<Rightarrow> DateOrder \<Rightarrow> MessageMatch option" where
  "matchSystemLine h line dateOrder =
     (case firstMatch [androidSystem, iosSystem] line of
        None \<Rightarrow> None
      | Some m \<Rightarrow>
          (if rxTest senderPrefixRegex (grp m 3) then None
           else case parseTimestamp h (grp m 1) (grp m 2) (Some dateOrder) of
                  None \<Rightarrow> None
                | Some ts \<Rightarrow>
                    (let cleaned = normalizeWaText (grp m 3)
                     in if cleaned = [] then None
                        else Some \<lparr> mm_timestamp = ts, mm_sender = js ''System'',
                                    mm_content = cleaned, mm_line = line,
                                    mm_isSystemLine = True \<rparr>)))"

section \<open>Chat parser: message assembly (chatParser.ts, userIdentity.ts)\<close>

text \<open>The attachment index: a \<open>MediaFile\<close> without its blob, which the parser never reads.\<close>

record MediaFile =
  mf_fileName :: jstring
  mf_url :: jstring
  mf_mimeType :: jstring
  mf_size :: "nat option"
  mf_driveFileId :: "jstring option"
  mf_thumbnailLink :: "jstring option"

text \<open>\<open>String.prototype.split('/').pop()\<close>: the part after the last slash.\<close>

definition lastSegment :: "jstring \<Rightarrow> jstring" where
  "lastSegment s = last (splitOn 47 s)"

text \<open>\<open>/^(\d+)/\<close> and \<open>/(\d{4}-\d{2}-\d{2}(?:-\d{2}-\d{2}-\d{2})?)/\<close> of \<open>findMediaFile\<close>.\<close>

definition numericIdRegex :: rx where
  "numericIdRegex = seqs [Bol, Grp 1 (plus digit)]"

definition datePortionRegex :: rx where
  "datePortionRegex =
     Grp 1 (seqs [rep 4 4 digit, chr CHR ''-'', rep 2 2 digit, chr CHR ''-'', rep 2 2 digit,
                  opt (seqs [chr CHR ''-'', rep 2 2 digit, chr CHR ''-'', rep 2 2 digit,
                             chr CHR ''-'', rep 2 2 digit])])"

text \<open>
  \<open>findMediaFile\<close>. The searched name is lowercased and trimmed; its base name is the part
  after the last slash (the whole name when that part is empty). The five lookups of the
  source, each an \<open>Array.prototype.find\<close>, are the five predicates below on a file of the
  index, tried in this order; the guards of the last two lookups (\<open>numericId\<close> of at least 5
  digits, \<open>datePortion\<close> not empty) are part of their predicates.
\<close>

definition normalizedNameOf :: "host \<Rightarrow> jstring \<Rightarrow> jstring" where
  "normalizedNameOf h fileName = trim (toLowerCase h fileName)"

definition baseFileNameOf :: "host \<Rightarrow> jstring \<Rightarrow> jstring" where
  "baseFileNameOf h fileName =
     (if lastSegment (normalizedNameOf h fileName) \<noteq> [] then lastSegment (normalizedNameOf h fileName)
      else normalizedNameOf h fileName)"

definition numericIdOf :: "host \<Rightarrow> jstring \<Rightarrow> jstring" where
  "numericIdOf h fileName =
     (case rxMatch numericIdRegex (baseFileNameOf h fileName) of Some m \<Rightarrow> grp m 1 | None \<Rightarrow> [])"

definition datePortionOf :: "host \<Rightarrow> jstring \<Rightarrow> jstring" where
  "datePortionOf h fileName =
     (case rxMatch datePortionRegex (baseFileNameOf h fileName) of Some m \<Rightarrow> grp m 1 | None \<Rightarrow> [])"

definition exactPathMatch :: "host \<Rightarrow> jstring \<Rightarrow> MediaFile \<Rightarrow> bool" where
  "exactPathMatch h fileName file =
     (let fileNameLower = toLowerCase h (mf_fileName file)
      in fileNameLower = normalizedNameOf h fileName
         \<or> endsWith fileNameLower (47 # normalizedNameOf h fileName))"

definition baseNameMatch :: "host \<Rightarrow> jstring \<Rightarrow> MediaFile \<Rightarrow> bool" where
  "baseNameMatch h fileName file =
     (lastSegment (toLowerCase h (mf_fileName file)) = baseFileNameOf h fileName)"

definition substringMatch :: "host \<Rightarrow> jstring \<Rightarrow> MediaFile \<Rightarrow> bool" where
  "substringMatch h fileName file =
     includesStr (toLowerCase h (mf_fileName file)) (baseFileNameOf h fileName)"

definition numericIdMatch :: "host \<Rightarrow> jstring \<Rightarrow> MediaFile \<Rightarrow> bool" where
  "numericIdMatch h fileName file =
     (numericIdOf h fileName \<noteq> [] \<and> length (numericIdOf h fileName) \<ge> 5
      \<and> includesStr (lastSegment (toLowerCase h (mf_fileName file))) (numericIdOf h fileName))"

definition datePortionMatch :: "host \<Rightarrow> jstring \<Rightarrow> MediaFile \<Rightarrow> bool" where
  "datePortionMatch h fileName file =
     (datePortionOf h fileName \<noteq> []
      \<and> includesStr (lastSegment (toLowerCase h (mf_fileName file))) (datePortionOf h fileName))"

definition findMediaFile :: "host \<Rightarrow> jstring \<Rightarrow> MediaFile list \<Rightarrow> MediaFile option" where
  "findMediaFile h fileName mediaFiles =
     (case find (exactPathMatch h fileName) mediaFiles of Some f \<Rightarrow> Some f | None \<Rightarrow>
     (case find (baseNameMatch h fileName) mediaFiles of Some f \<Rightarrow> Some f | None \<Rightarrow>
     (case find (substringMatch h fileName) mediaFiles of Some f \<Rightarrow> Some f | None \<Rightarrow>
     (case find (numericIdMatch h fileName) mediaFiles of Some f \<Rightarrow> Some f | None \<Rightarrow>
      find (datePortionMatch h fileName) mediaFiles))))"

definition getMessageTypeFromMime :: "jstring \<Rightarrow> MessageType" where
  "getMessageTypeFromMime mimeType =
     (if startsWith mimeType (js ''image/'') then Ty_image
      else if startsWith mimeType (js ''video/'') then Ty_video
      else if startsWith mimeType (js ''audio/'') then Ty_audio
      else if mimeType = js ''image/webp'' then Ty_sticker
      else Ty_document)"

text \<open>The placeholders of omitted media, \<open>/^image omitted$/i\<close> and its five siblings.\<close>

definition omittedRegexes :: "rx list" where
  "omittedRegexes =
     map (\<lambda>w. seqs [Bol, liti w, Eol])
       [''image omitted'', ''video omitted'', ''audio omitted'', ''sticker omitted'',
        ''document omitted'', ''GIF omitted'']"

text \<open>One device file name pattern, \<open>/^(IMG-\d+-WA\d+\.\w+)$/i\<close> for the tag \<open>IMG\<close>.\<close>

definition waFileRegex :: "string \<Rightarrow> rx \<Rightarrow> rx" where
  "waFileRegex tag ext =
     seqs [Bol, Grp 1 (seqs [liti tag, chr CHR ''-'', plus digit, liti ''-WA'', plus digit,
                             chr CHR ''.'', ext]), Eol]"

text \<open>\<open>mediaPatterns\<close>, in the order of the source.\<close>

definition mediaPatterns :: "rx list" where
  "mediaPatterns =
     [seqs [liti ''<attached:'', star ws, Grp 1 (plusLazy dot), chr CHR ''>''],
      seqs [Grp 1 (plusLazy dot), star ws, liti ''(file attached)''],
      waFileRegex ''IMG'' (plus wordChar),
      waFileRegex ''VID'' (plus wordChar),
      waFileRegex ''AUD'' (plus wordChar),
      waFileRegex ''PTT'' (plus wordChar),
      waFileRegex ''STK'' (liti ''webp''),
      waFileRegex ''DOC'' (plus wordChar)]"

text \<open>The first pattern of the list that matches, with its match: the \<open>for\<close> loop of
  \<open>detectMessageType\<close> returns in the first round whose pattern matches.\<close>

fun firstPattern :: "rx list \<Rightarrow> jstring \<Rightarrow> (rx \<times> caps) option" where
  "firstPattern [] c = None"
| "firstPattern (pattern # rest) c =
     (case rxMatch pattern c of Some m \<Rightarrow> Some (pattern, m) | None \<Rightarrow> firstPattern rest c)"

record DetectedType =
  dt_type :: MessageType
  dt_mediaUrl :: "jstring option"
  dt_mediaFileName :: "jstring option"
  dt_mediaMimeType :: "jstring option"
  dt_mediaSize :: "nat option"
  dt_driveFileId :: "jstring option"
  dt_thumbnailUrl :: "jstring option"
  dt_finalContent :: jstring

definition plainText :: "jstring \<Rightarrow> DetectedType" where
  "plainText body =
     \<lparr> dt_type = Ty_text, dt_mediaUrl = None, dt_mediaFileName = None, dt_mediaMimeType = None,
       dt_mediaSize = None, dt_driveFileId = None, dt_thumbnailUrl = None,
       dt_finalContent = body \<rparr>"

definition mediaNotFound :: "jstring \<Rightarrow> jstring" where
  "mediaNotFound fileName = js ''[Media not found: '' @ fileName @ js '']''"

definition detectMessageType :: "host \<Rightarrow> jstring \<Rightarrow> MediaFile list \<Rightarrow> DetectedType" where
  "detectMessageType h body mediaFiles =
     (let c = normalizeWaText body
      in if list_ex (\<lambda>e. rxTest e c) omittedRegexes then plainText (js ''__OMITTED_MEDIA__'')
         else
           (case firstPattern mediaPatterns c of
              Some (pattern, m) \<Rightarrow>
                (let fileName = grp m 1;
                     caption = trim (rxRemove pattern c)
                 in case findMediaFile h fileName mediaFiles of
                      Some mediaFile \<Rightarrow>
                        \<lparr> dt_type = getMessageTypeFromMime (mf_mimeType mediaFile),
                          dt_mediaUrl = Some (mf_url mediaFile),
                          dt_mediaFileName = Some (mf_fileName mediaFile),
                          dt_mediaMimeType = Some (mf_mimeType mediaFile),
                          dt_mediaSize = mf_size mediaFile,
                          dt_driveFileId = mf_driveFileId mediaFile,
                          dt_thumbnailUrl = mf_thumbnailLink mediaFile,
                          dt_finalContent = caption \<rparr>
                    | None \<Rightarrow>
                        plainText (if caption \<noteq> [] then caption else mediaNotFound fileName))
            | None \<Rightarrow> plainText c))"

text \<open>\<open>stripEditedMarker\<close>: the cleaned text and \<open>isEdited\<close>.\<close>

definition stripEditedMarker :: "jstring \<Rightarrow> jstring \<times> bool" where
  "stripEditedMarker s =
     (let marker = js ''<This message was edited>''
      in case lastIndexOf s marker of
           None \<Rightarrow> (s, False)
         | Some idx \<Rightarrow> (trim (take idx s @ drop (idx + length marker) s), True))"

text \<open>\<open>/^(.+?):\s(.+)$/\<close> of \<open>extractQuotedMessage\<close>.\<close>

definition quoteRegex :: rx where
  "quoteRegex = seqs [Bol, Grp 1 (plusLazy dot), chr CHR '':'', ws, Grp 2 (plus dot), Eol]"

definition extractQuotedMessage :: "jstring \<Rightarrow> jstring \<times> QuotedMessage option" where
  "extractQuotedMessage s =
     (let parts = splitOn 10 s
      in if length parts < 2 then (s, None)
         else
           (let first = trim (hd parts);
                rest = trim (joinWith 10 (tl parts))
            in case rxMatch quoteRegex first of
                 None \<Rightarrow> (s, None)
               | Some m \<Rightarrow>
                   (let quotedSender = trim (grp m 1);
                        quotedContent = trim (grp m 2)
                    in if quotedSender = [] \<or> quotedContent = [] \<or> rest = [] then (s, None)
                       else (rest, Some \<lparr> q_sender = quotedSender, q_content = quotedContent \<rparr>))))"

text \<open>\<open>detectCallLog\<close>: \<open>isCall\<close>, \<open>callDuration\<close>, \<open>callKind\<close> and \<open>callMissed\<close>.\<close>

record CallLog =
  cl_isCall :: bool
  cl_callDuration :: "jstring option"
  cl_callKind :: "CallKind option"
  cl_callMissed :: "bool option"

definition callRegex :: "string \<Rightarrow> rx" where
  "callRegex phrase = seqs [Bol, liti phrase, opt (chr CHR '',''), star ws, Grp 1 (star dot), Eol]"

definition answeredCall :: "CallKind \<Rightarrow> caps \<Rightarrow> CallLog" where
  "answeredCall kind m =
     (let dur = trim (grp m 1)
      in \<lparr> cl_isCall = True, cl_callDuration = (if dur \<noteq> [] then Some dur else None),
           cl_callKind = Some kind, cl_callMissed = None \<rparr>)"

definition detectCallLog :: "jstring \<Rightarrow> CallLog" where
  "detectCallLog s =
     (let t = trim s
      in if rxTest (seqs [Bol, liti ''missed voice call'']) t then
           \<lparr> cl_isCall = True, cl_callDuration = None, cl_callKind = Some Voice,
             cl_callMissed = Some True \<rparr>
         else if rxTest (seqs [Bol, liti ''missed video call'']) t then
           \<lparr> cl_isCall = True, cl_callDuration = None, cl_callKind = Some Video,
             cl_callMissed = Some True \<rparr>
         else
           (case rxMatch (callRegex ''voice call'') t of
              Some m \<Rightarrow> answeredCall Voice m
            | None \<Rightarrow>
                (case rxMatch (callRegex ''video call'') t of
                   Some m \<Rightarrow> answeredCall Video m
                 | None \<Rightarrow>
                     \<lparr> cl_isCall = False, cl_callDuration = None, cl_callKind = None,
                       cl_callMissed = None \<rparr>)))"

text \<open>\<open>USER_IDENTITY\<close>, \<open>normalizePhone\<close> and \<open>isMeSender\<close> of userIdentity.ts.\<close>

definition displayName :: jstring where
  "displayName = js ''Rajiv''"

definition phoneNumbers :: "jstring list" where
  "phoneNumbers = [js ''+919886031088'', js ''9886031088'']"

definition normalizePhone :: "jstring \<Rightarrow> jstring" where
  "normalizePhone input =
     (let digits = filter isDigit input
      in if length digits > 10 then drop (length digits - 10) digits else digits)"

definition isMeSender :: "host \<Rightarrow> jstring \<Rightarrow> bool" where
  "isMeSender h who =
     (let s = trim who
      in if s = [] then False
         else if toLowerCase h s = toLowerCase h displayName then True
         else (let senderPhone = normalizePhone s
               in if senderPhone = [] then False
                  else list_ex (\<lambda>p. normalizePhone p = senderPhone) phoneNumbers))"

text \<open>\<open>replace(/[^a-z0-9]/g, '_')\<close> of the id generators.\<close>

definition underscored :: "jstring \<Rightarrow> jstring" where
  "underscored s = map (\<lambda>c. if (97 \<le> c \<and> c \<le> 122) \<or> isDigit c then c else 95) s"

definition generateMessageId :: "host \<Rightarrow> int \<Rightarrow> jstring \<Rightarrow> nat \<Rightarrow> jstring" where
  "generateMessageId h ts who seq =
     js ''msg_'' @ show_int ts @ js ''_'' @ show_nat seq @ js ''_'' @ toLowerCase h (underscored who)"

definition createMessage :: "host \<Rightarrow> MessageMatch \<Rightarrow> MediaFile list \<Rightarrow> nat \<Rightarrow> Message" where
  "createMessage h match mediaFiles seq =
     (let d = detectMessageType h (mm_content match) mediaFiles;
          edited = stripEditedMarker (dt_finalContent d);
          reply = extractQuotedMessage (fst edited);
          replyCleaned = fst reply;
          call = detectCallLog replyCleaned;
          isSystem = (mm_isSystemLine match = True);
          outgoing = (\<not> isSystem \<and> isMeSender h (mm_sender match))
      in \<lparr> msg_id = generateMessageId h (mm_timestamp match) (mm_sender match) seq,
           timestamp = mm_timestamp match,
           sender = mm_sender match,
           msg_type = (if isSystem then Ty_system else if cl_isCall call then Ty_call else dt_type d),
           content = replyCleaned,
           mediaUrl = dt_mediaUrl d,
           mediaFileName = dt_mediaFileName d,
           mediaMimeType = dt_mediaMimeType d,
           mediaSize = dt_mediaSize d,
           driveFileId = dt_driveFileId d,
           thumbnailUrl = dt_thumbnailUrl d,
           isOutgoing = outgoing,
           isEdited = (if snd edited then Some True else None),
           quotedMessage = snd reply,
           callDuration = cl_callDuration call,
           callKind = cl_callKind call,
           callMissed = cl_callMissed call \<rparr>)"

section \<open>Chat parser: the parsing loop and the chat (chatParser.ts)\<close>

text \<open>\<open>/^\s*\[?\d{1,2}\/\d{1,2}\/\d{2,4},?\s+\d{1,2}:\d{2}(:\d{2})?\s*(am|pm|AM|PM)?\s*\]/\<close>: a line
  that starts with a timestamp which did not parse.\<close>

definition startsWithTimestampRegex :: rx where
  "startsWithTimestampRegex =
     seqs [Bol, star ws, opt (chr CHR ''[''), datePat, opt (chr CHR '',''), plus ws,
           rep 1 2 digit, chr CHR '':'', rep 2 2 digit,
           opt (Grp 1 (seqs [chr CHR '':'', rep 2 2 digit])), star ws,
           opt (Grp 2 (alts [lit ''am'', lit ''pm'', lit ''AM'', lit ''PM''])), star ws,
           chr CHR '']'']"

text \<open>
  One round of the loop of \<open>parseMessages\<close> for the line \<open>rawLine\<close> at index \<open>i\<close>, on the state
  \<open>(messages, currentMessage, errors)\<close>.
\<close>

definition parseStep ::
  "host \<Rightarrow> MediaFile list \<Rightarrow> DateOrder
     \<Rightarrow> Message list \<times> MessageMatch option \<times> jstring list \<Rightarrow> nat \<times> jstring
     \<Rightarrow> Message list \<times> MessageMatch option \<times> jstring list" where
  "parseStep h mediaFiles dateOrder st il =
     (let messages = fst st; currentMessage = fst (snd st); errors = snd (snd st);
          i = fst il; line = normalizeWaText (snd il)
      in if line = [] then st
         else
           (case (case matchMessageLine h line dateOrder of
                    Some m \<Rightarrow> Some m
                  | None \<Rightarrow> matchSystemLine h line dateOrder) of
              Some match \<Rightarrow>
                ((case currentMessage of
                    Some cur \<Rightarrow> messages @ [createMessage h cur mediaFiles (length messages)]
                  | None \<Rightarrow> messages),
                 Some match, errors)
            | None \<Rightarrow>
                (case currentMessage of
                   Some cur \<Rightarrow>
                     if rxTest startsWithTimestampRegex line then
                       ((if trim (mm_content cur) \<noteq> []
                         then messages @ [createMessage h cur mediaFiles (length messages)]
                         else messages),
                        None, errors)
                     else (messages, Some (cur\<lparr> mm_content := mm_content cur @ 10 # line \<rparr>), errors)
                 | None \<Rightarrow>
                     if i < 5 then st
                     else (messages, None,
                           errors @ [js ''Could not parse line '' @ show_nat (i + 1) @ js '': ''
                                       @ take 50 line @ js ''...'']))))"

text \<open>The final filter of \<open>parseMessages\<close>.\<close>

definition keepMessage :: "Message \<Rightarrow> bool" where
  "keepMessage msg =
     (if msg_type msg \<noteq> Ty_text then True
      else if content msg = js ''__OMITTED_MEDIA__'' then False
      else length (trim (content msg)) > 0)"

text \<open>The messages of the loop before the final filter, and the errors.\<close>

definition assembleMessages ::
  "host \<Rightarrow> jstring \<Rightarrow> MediaFile list \<Rightarrow> jstring list \<Rightarrow> Message list \<times> jstring list" where
  "assembleMessages h body mediaFiles errors =
     (let lines = splitOn 10 body;
          dateOrder = inferDateOrder lines;
          st = foldl (parseStep h mediaFiles dateOrder) ([], None, errors) (enumerate 0 lines);
          messages = fst st
      in ((case fst (snd st) of
             Some cur \<Rightarrow> messages @ [createMessage h cur mediaFiles (length messages)]
           | None \<Rightarrow> messages),
          snd (snd st)))"

definition parseMessages ::
  "host \<Rightarrow> jstring \<Rightarrow> MediaFile list \<Rightarrow> jstring list \<Rightarrow> Message list \<times> jstring list" where
  "parseMessages h body mediaFiles errors =
     (let r = assembleMessages h body mediaFiles errors
      in (filter keepMessage (fst r), snd r))"

record Participant =
  p_id :: jstring
  p_name :: jstring
  p_color :: jstring

record Chat =
  chat_id :: jstring
  chat_name :: jstring
  chat_participants :: "Participant list"
  chat_messages :: "Message list"
  chat_isGroup :: bool

record ChatParseResult =
  cr_chat :: Chat
  cr_errors :: "jstring list"

definition generateParticipantColors :: "jstring list" where
  "generateParticipantColors =
     [js ''#00a884'', js ''#ff6b6b'', js ''#4ecdc4'', js ''#ffd93d'', js ''#a8dadc'', js ''#f4a261'',
      js ''#e76f51'', js ''#2a9d8f'', js ''#e63946'', js ''#06ffa5'', js ''#7209b7'', js ''#f72585'']"

definition generateParticipantId :: "host \<Rightarrow> jstring \<Rightarrow> jstring" where
  "generateParticipantId h name = js ''user_'' @ underscored (toLowerCase h name)"

definition generateChatId :: "host \<Rightarrow> jstring \<Rightarrow> jstring" where
  "generateChatId h name =
     js ''chat_'' @ underscored (toLowerCase h name) @ js ''_'' @ show_int (dateNow h)"

text \<open>\<open>extractParticipants\<close>: the \<open>Map\<close> keeps the senders in the order of their first message.\<close>

definition participantStep ::
  "host \<Rightarrow> Participant list \<times> nat \<Rightarrow> Message \<Rightarrow> Participant list \<times> nat" where
  "participantStep h st msg =
     (let colors = generateParticipantColors
      in if \<not> list_ex (\<lambda>p. p_name p = sender msg) (fst st) \<and> msg_type msg \<noteq> Ty_system
         then (fst st @ [\<lparr> p_id = generateParticipantId h (sender msg), p_name = sender msg,
                           p_color = colors ! (snd st mod length colors) \<rparr>],
               snd st + 1)
         else st)"

definition extractParticipants :: "host \<Rightarrow> Message list \<Rightarrow> Participant list" where
  "extractParticipants h messages = fst (foldl (participantStep h) ([], 0) messages)"

definition detectGroupIndicators :: "jstring \<Rightarrow> bool" where
  "detectGroupIndicators body =
     list_ex (\<lambda>e. rxTest e body)
       [liti ''created group'', liti ''added'', liti ''removed'',
        liti (''joined using this group'' @ [CHR 0x27] @ ''s invite link''),
        liti ''changed the subject from'',
        liti (''You'' @ [CHR 0x27] @ ''re now an admin'')]"

text \<open>\<open>extractChatName\<close>: five replacements, a trim and the fallback.\<close>

definition extractChatName :: "host \<Rightarrow> jstring \<Rightarrow> jstring" where
  "extractChatName h fileName =
     (let n1 = rxRemove (seqs [chr CHR ''.'', liti ''txt'', Eol]) fileName;
          n2 = rxRemove (seqs [Bol, liti ''WhatsApp Chat with '']) n1;
          n3 = rxRemove (seqs [Bol, liti ''WhatsApp Chat - '']) n2;
          n4 = rxRemove (seqs [Bol, liti ''Chat with '']) n3;
          n5 = rxRemove (seqs [Bol, liti ''_chat'', Eol]) n4;
          name = trim n5
      in if name = [] \<or> toLowerCase h name = js ''chat'' then js ''Unnamed Chat'' else name)"

text \<open>The patterns of \<open>deriveChatNameFromContent\<close>; the quotes are \<open>"\<close> and the curly quotes
  U+201C and U+201D.\<close>

definition openQuote :: rx where
  "openQuote = Cls (\<lambda>c. c = 34 \<or> c = 8220)"

definition closeQuote :: rx where
  "closeQuote = Cls (\<lambda>c. c = 34 \<or> c = 8221)"

definition subjectPatterns :: "rx list" where
  "subjectPatterns =
     [seqs [liti ''created group'', plus ws, openQuote, Grp 1 (plusLazy dot), closeQuote],
      seqs [liti ''changed the subject to'', plus ws, openQuote, Grp 1 (plusLazy dot), closeQuote],
      seqs [liti ''changed the subject from'', plus ws, openQuote, plusLazy dot, closeQuote,
            plus ws, liti ''to'', plus ws, openQuote, Grp 1 (plusLazy dot), closeQuote],
      seqs [liti ''changed the subject to'', plus ws, Grp 1 (plusLazy dot), EolM]]"

fun deriveLoop :: "rx list \<Rightarrow> jstring \<Rightarrow> jstring option" where
  "deriveLoop [] s = None"
| "deriveLoop (re # rest) s =
     (case rxMatch re s of
        Some m \<Rightarrow>
          (if grp m 1 \<noteq> [] \<and> trim (grp m 1) \<noteq> [] \<and> length (trim (grp m 1)) \<le> 80
           then Some (trim (grp m 1)) else deriveLoop rest s)
      | None \<Rightarrow> deriveLoop rest s)"

definition deriveChatNameFromContent :: "jstring \<Rightarrow> jstring option" where
  "deriveChatNameFromContent raw = deriveLoop subjectPatterns raw"

text \<open>The part of the \<open>try\<close> of \<open>parseChatFile\<close> that follows \<open>parseMessages\<close>, with the chat
  name that \<open>extractChatName\<close> computed before it: \<open>pm\<close> is the messages parsed and the errors
  pushed.\<close>

definition chatOf :: "host \<Rightarrow> jstring \<Rightarrow> jstring \<Rightarrow> Message list \<times> jstring list \<Rightarrow> ChatParseResult" where
  "chatOf h fileName chatText pm =
     (let chatName0 = extractChatName h fileName;
          messages = fst pm;
          errors = (if length messages = 0
                    then snd pm @ [js ''No messages found in chat file''] else snd pm);
          participants0 = extractParticipants h messages;
          looksLikeGroup = (length participants0 > 2 \<or> detectGroupIndicators chatText);
          isOneToOne = (length participants0 = 2);
          isGroup = (looksLikeGroup \<and> \<not> isOneToOne);
          chatName1 = (if chatName0 = js ''Unnamed Chat''
                       then (case deriveChatNameFromContent chatText of
                               Some derived \<Rightarrow> derived | None \<Rightarrow> chatName0)
                       else chatName0);
          me = find (\<lambda>p. isMeSender h (p_name p)) participants0;
          other = find (\<lambda>p. \<not> isMeSender h (p_name p)) participants0;
          chatName = (if isOneToOne
                      then (case other of Some them \<Rightarrow> p_name them | None \<Rightarrow> chatName1)
                      else chatName1);
          participants = (if isOneToOne
                          then (case (me, other) of
                                  (Some mine, Some them) \<Rightarrow> [them, mine] | _ \<Rightarrow> participants0)
                          else participants0)
      in \<lparr> cr_chat = \<lparr> chat_id = generateChatId h chatName, chat_name = chatName,
                        chat_participants = participants, chat_messages = messages,
                        chat_isGroup = isGroup \<rparr>,
            cr_errors = errors \<rparr>)"

subsection \<open>Arguments of another type\<close>

text \<open>
  The types of TypeScript are gone at run time, and the chat text and the attachment index
  come from the transport layer. An argument of \<open>parseChatFile\<close> is therefore \<open>Some\<close> value
  of its declared type, or \<open>None\<close> for a value of another type that has none of the methods
  of the declared one (\<open>undefined\<close>, \<open>null\<close>, a number): the first method call on it raises a
  TypeError. The message of a TypeError depends on the engine; \<open>typeError\<close> maps the call
  that failed to it. What a \<open>throw\<close> carries is an \<open>Error\<close> with its message, or some other
  value.
\<close>

datatype thrown = ThrownError jstring | ThrownOther

definition thrownMessage :: "thrown \<Rightarrow> jstring" where
  "thrownMessage e = (case e of ThrownError m \<Rightarrow> m | ThrownOther \<Rightarrow> js ''Unknown error'')"

text \<open>
  The attachment index is read in one place, \<open>mediaFiles.find\<close> in \<open>findMediaFile\<close>, which
  \<open>detectMessageType\<close> calls in the first round of its loop whose pattern matches, unless it
  has returned for an omitted-media placeholder before.
\<close>

definition looksUpMedia :: "jstring \<Rightarrow> bool" where
  "looksUpMedia body =
     (let c = normalizeWaText body
      in \<not> list_ex (\<lambda>e. rxTest e c) omittedRegexes \<and> firstPattern mediaPatterns c \<noteq> None)"

text \<open>
  \<open>createMessage\<close> when the attachment index is of another type: \<open>None\<close> when the TypeError
  is raised, and the message otherwise, for which the index is not read.
\<close>

definition createMessageUnindexed :: "host \<Rightarrow> MessageMatch \<Rightarrow> nat \<Rightarrow> Message option" where
  "createMessageUnindexed h match seq =
     (if looksUpMedia (mm_content match) then None else Some (createMessage h match [] seq))"

text \<open>
  One round of the loop of \<open>parseMessages\<close> when the attachment index is of another type:
  \<open>Inl\<close> of the errors pushed so far once the TypeError is raised, \<open>Inr\<close> of the state of the
  loop before.
\<close>

definition parseStepUnindexed ::
  "host \<Rightarrow> DateOrder
     \<Rightarrow> jstring list + (Message list \<times> MessageMatch option \<times> jstring list) \<Rightarrow> nat \<times> jstring
     \<Rightarrow> jstring list + (Message list \<times> MessageMatch option \<times> jstring list)" where
  "parseStepUnindexed h dateOrder acc il =
     (case acc of
        Inl pushed \<Rightarrow> Inl pushed
      | Inr st \<Rightarrow>
          (let messages = fst st; currentMessage = fst (snd st); errors = snd (snd st);
               i = fst il; line = normalizeWaText (snd il)
           in if line = [] then Inr st
              else
                (case (case matchMessageLine h line dateOrder of
                         Some m \<Rightarrow> Some m
                       | None \<Rightarrow> matchSystemLine h line dateOrder) of
                   Some match \<Rightarrow>
                     (case currentMessage of
                        Some cur \<Rightarrow>
                          (case createMessageUnindexed h cur (length messages) of
                             None \<Rightarrow> Inl errors
                           | Some msg \<Rightarrow> Inr (messages @ [msg], Some match, errors))
                      | None \<Rightarrow> Inr (messages, Some match, errors))
                 | None \<Rightarrow>
                     (case currentMessage of
                        Some cur \<Rightarrow>
                          if rxTest startsWithTimestampRegex line then
                            (if trim (mm_content cur) \<noteq> [] then
                               (case createMessageUnindexed h cur (length messages) of
                                  None \<Rightarrow> Inl errors
                                | Some msg \<Rightarrow> Inr (messages @ [msg], None, errors))
                             else Inr (messages, None, errors))
                          else Inr (messages,
                                    Some (cur\<lparr> mm_content := mm_content cur @ 10 # line \<rparr>), errors)
                      | None \<Rightarrow>
                          if i < 5 then Inr st
                          else Inr (messages, None,
                                    errors @ [js ''Could not parse line '' @ show_nat (i + 1)
                                                @ js '': '' @ take 50 line @ js ''...''])))))"

text \<open>\<open>parseMessages\<close> when the attachment index is of another type.\<close>

definition parseMessagesUnindexed ::
  "host \<Rightarrow> jstring \<Rightarrow> jstring list \<Rightarrow> jstring list + (Message list \<times> jstring list)" where
  "parseMessagesUnindexed h body errors =
     (let lines = splitOn 10 body;
          dateOrder = inferDateOrder lines
      in case foldl (parseStepUnindexed h dateOrder) (Inr ([], None, errors)) (enumerate 0 lines) of
           Inl pushed \<Rightarrow> Inl pushed
         | Inr st \<Rightarrow>
             (case fst (snd st) of
                Some cur \<Rightarrow>
                  (case createMessageUnindexed h cur (length (fst st)) of
                     None \<Rightarrow> Inl (snd (snd st))
                   | Some msg \<Rightarrow> Inr (filter keepMessage (fst st @ [msg]), snd (snd st)))
              | None \<Rightarrow> Inr (filter keepMessage (fst st), snd (snd st))))"

text \<open>
  The body of the \<open>try\<close> of \<open>parseChatFile\<close>: \<open>Inl\<close> of the errors pushed so far and the value
  thrown, or \<open>Inr\<close> of the value returned. \<open>extractChatName\<close> calls \<open>fileName.replace\<close>,
  then \<open>parseMessages\<close> calls \<open>content.split\<close>, and its loop reads the attachment index.
\<close>

definition parseChatBody ::
  "host \<Rightarrow> (jstring \<Rightarrow> jstring) \<Rightarrow> jstring option \<Rightarrow> jstring option \<Rightarrow> MediaFile list option
     \<Rightarrow> (jstring list \<times> thrown) + ChatParseResult" where
  "parseChatBody h typeError fileName body mediaFiles =
     (case fileName of
        None \<Rightarrow> Inl ([], ThrownError (typeError (js ''fileName.replace'')))
      | Some name \<Rightarrow>
          (case body of
             None \<Rightarrow> Inl ([], ThrownError (typeError (js ''content.split'')))
           | Some chatText \<Rightarrow>
               (case mediaFiles of
                  Some files \<Rightarrow> Inr (chatOf h name chatText (parseMessages h chatText files []))
                | None \<Rightarrow>
                    (case parseMessagesUnindexed h chatText [] of
                       Inl pushed \<Rightarrow> Inl (pushed, ThrownError (typeError (js ''mediaFiles.find'')))
                     | Inr pm \<Rightarrow> Inr (chatOf h name chatText pm)))))"

text \<open>
  \<open>parseChatFile\<close>: the \<open>try\<close> and its \<open>catch\<close>. The \<open>catch\<close> pushes the message of what was
  thrown and builds the minimal chat, for whose id \<open>generateChatId\<close> calls
  \<open>name.toLowerCase\<close> on the file name. The result is \<open>Inr\<close> of the value returned, or \<open>Inl\<close>
  of the value that \<open>parseChatFile\<close> throws to its caller.
\<close>

definition parseChatFile ::
  "host \<Rightarrow> (jstring \<Rightarrow> jstring) \<Rightarrow> jstring option \<Rightarrow> jstring option \<Rightarrow> MediaFile list option
     \<Rightarrow> thrown + ChatParseResult" where
  "parseChatFile h typeError fileName body mediaFiles =
     (case parseChatBody h typeError fileName body mediaFiles of
        Inr result \<Rightarrow> Inr result
      | Inl (errors, e) \<Rightarrow>
          (case fileName of
             None \<Rightarrow> Inl (ThrownError (typeError (js ''name.toLowerCase'')))
           | Some name \<Rightarrow>
               Inr \<lparr> cr_chat = \<lparr> chat_id = generateChatId h name, chat_name = name,
                                  chat_participants = [], chat_messages = [],
                                  chat_isGroup = False \<rparr>,
                      cr_errors = errors @ [js ''Failed to parse chat: '' @ thrownMessage e] \<rparr>))"

text \<open>The message of V8 for a call on a value that has no such method.\<close>

definition notAFunction :: "jstring \<Rightarrow> jstring" where
  "notAFunction call = call @ js '' is not a function''"

section \<open>Timeline builder: bubble groups (timelineBuilder.ts)\<close>

record MessageBubbleGroup =
  bg_sender :: jstring
  bg_isOutgoing :: bool
  bg_messages :: "Message list"
  bg_timestamp :: int

text \<open>
  \<open>differenceInMinutes\<close> of the library date-fns, which the repository imports: the number
  of full minutes between two dates, the millisecond difference divided by 60000 and
  truncated towards zero.
\<close>

definition differenceInMinutes :: "int \<Rightarrow> int \<Rightarrow> int" where
  "differenceInMinutes dateLeft dateRight =
     (let diff = dateLeft - dateRight
      in if diff \<ge> 0 then diff div 60000 else - ((- diff) div 60000))"

definition newGroup :: "Message \<Rightarrow> MessageBubbleGroup" where
  "newGroup message =
     \<lparr> bg_sender = sender message, bg_isOutgoing = isOutgoing message,
       bg_messages = [message], bg_timestamp = timestamp message \<rparr>"

definition systemGroup :: "Message \<Rightarrow> MessageBubbleGroup" where
  "systemGroup message =
     \<lparr> bg_sender = sender message, bg_isOutgoing = False,
       bg_messages = [message], bg_timestamp = timestamp message \<rparr>"

text \<open>The body of the \<open>forEach\<close>, on the state \<open>(bubbleGroups, currentGroup)\<close>.\<close>

definition bubbleStep ::
  "MessageBubbleGroup list \<times> MessageBubbleGroup option \<Rightarrow> Message
     \<Rightarrow> MessageBubbleGroup list \<times> MessageBubbleGroup option" where
  "bubbleStep st message =
     (let bubbleGroups = fst st; currentGroup = snd st
      in if msg_type message = Ty_system then
           ((case currentGroup of Some g \<Rightarrow> bubbleGroups @ [g] | None \<Rightarrow> bubbleGroups)
              @ [systemGroup message], None)
         else
           (case currentGroup of
              Some g \<Rightarrow>
                if bg_sender g = sender message \<and> bg_isOutgoing g = isOutgoing message
                   \<and> differenceInMinutes (timestamp message) (bg_timestamp g) \<le> 10
                then (bubbleGroups, Some (g\<lparr> bg_messages := bg_messages g @ [message] \<rparr>))
                else (bubbleGroups @ [g], Some (newGroup message))
            | None \<Rightarrow> (bubbleGroups, Some (newGroup message))))"

definition closeGroups ::
  "MessageBubbleGroup list \<times> MessageBubbleGroup option \<Rightarrow> MessageBubbleGroup list" where
  "closeGroups st = (case snd st of Some g \<Rightarrow> fst st @ [g] | None \<Rightarrow> fst st)"

definition groupMessagesIntoBubbles :: "Message list \<Rightarrow> MessageBubbleGroup list" where
  "groupMessagesIntoBubbles messages =
     (if messages = [] then [] else closeGroups (foldl bubbleStep ([], None) messages))"

text \<open>
  The grouping rule in the specification's terms, measured from the first message of a
  group: a message extends the group of \<open>first\<close> when it is not a system message, has the
  sender and the outgoing polarity of \<open>first\<close>, and comes less than 11 minutes after
  \<open>first\<close> (at most 10 full minutes). A group is a first message and the longest run after
  it of messages that extend it; a system message is a group of its own.
\<close>

definition extendsGroup :: "Message \<Rightarrow> Message \<Rightarrow> bool" where
  "extendsGroup first m \<longleftrightarrow>
     msg_type m \<noteq> Ty_system \<and> sender m = sender first \<and> isOutgoing m = isOutgoing first
     \<and> timestamp m - timestamp first < 660000"

function bubbleRuns :: "Message list \<Rightarrow> MessageBubbleGroup list" where
  "bubbleRuns [] = []"
| "bubbleRuns (m # ms) =
     (if msg_type m = Ty_system then systemGroup m # bubbleRuns ms
      else (newGroup m)\<lparr> bg_messages := m # takeWhile (extendsGroup m) ms \<rparr>
             # bubbleRuns (dropWhile (extendsGroup m) ms))"
  by pat_completeness auto
termination
  by (relation "measure length") (auto simp: length_dropWhile_le less_Suc_eq_le)

declare bubbleRuns.simps(2) [simp del]

section \<open>Bounded media cache (mediaCacheService.ts)\<close>

text \<open>
  The Cache Storage of the browser, \<open>caches.open(CACHE_NAME)\<close>, is a list of entries in
  insertion order with at most one entry per request URL. \<open>getCacheKey\<close> maps a drive file
  id to its URL one to one, so an entry is keyed by the id. An entry carries the size of its
  blob and the \<open>lastAccessed\<close> of its metadata header. The model is the service where the
  Cache Storage exists (\<open>'caches' in window\<close>) and its operations succeed.
\<close>

record CacheEntry =
  ce_driveFileId :: jstring
  ce_size :: nat
  ce_lastAccessed :: int

record MediaCacheService =
  cacheStore :: "CacheEntry list"
  memoryCache :: "jstring \<rightharpoonup> jstring"
  cacheSize :: int

definition MAX_CACHE_SIZE :: int where
  "MAX_CACHE_SIZE = 2 * 1024 * 1024 * 1024"

text \<open>
  The threshold is \<open>MAX_CACHE_SIZE * EVICTION_THRESHOLD\<close> with \<open>EVICTION_THRESHOLD = 0.9\<close>, the
  number 1932735283.2, and sizes are whole numbers of bytes: a size is above it when ten
  times the size is above nine times the budget, and below it likewise.
\<close>

definition aboveThreshold :: "int \<Rightarrow> bool" where
  "aboveThreshold x \<longleftrightarrow> 10 * x > 9 * MAX_CACHE_SIZE"

definition belowThreshold :: "int \<Rightarrow> bool" where
  "belowThreshold x \<longleftrightarrow> 10 * x < 9 * MAX_CACHE_SIZE"

text \<open>\<open>cache.delete(request)\<close> and \<open>cache.put(cacheKey, response)\<close>.\<close>

definition cacheDelete :: "jstring \<Rightarrow> CacheEntry list \<Rightarrow> CacheEntry list" where
  "cacheDelete k store = filter (\<lambda>e. ce_driveFileId e \<noteq> k) store"

definition cachePut :: "CacheEntry \<Rightarrow> CacheEntry list \<Rightarrow> CacheEntry list" where
  "cachePut e store = cacheDelete (ce_driveFileId e) store @ [e]"

text \<open>\<open>cache.match(request)\<close>: the response stored under the request, if there is one.\<close>

definition cacheMatch :: "jstring \<Rightarrow> CacheEntry list \<Rightarrow> CacheEntry option" where
  "cacheMatch k store = find (\<lambda>e. ce_driveFileId e = k) store"

text \<open>
  The memory cache loses the evicted id when the id is a non-empty string that maps to a
  non-empty blob URL.
\<close>

definition memoryEvict :: "jstring \<Rightarrow> (jstring \<rightharpoonup> jstring) \<Rightarrow> (jstring \<rightharpoonup> jstring)" where
  "memoryEvict k mem =
     (if k \<noteq> [] then (case mem k of Some (u # us) \<Rightarrow> mem(k := None) | _ \<Rightarrow> mem) else mem)"

subsection \<open>A call in progress\<close>

text \<open>
  \<open>addToCache\<close> and \<open>evictLRU\<close> are \<open>async\<close>: a call runs from one \<open>await\<close> to the next, and
  between two of its awaits the code of other calls can run. A call in progress is
  suspended at one of its awaits, with the local variables that are live there:

  \<^item> \<open>AtCall\<close>: \<open>addToCache(driveFileId, blob)\<close> is about to be entered;
  \<^item> \<open>AtEvictOpen\<close>: \<open>await caches.open(CACHE_NAME)\<close> in \<open>evictLRU\<close>;
  \<^item> \<open>AtEvictKeys\<close>: \<open>await cache.keys()\<close>;
  \<^item> \<open>AtEvictMatch requests entries\<close>: \<open>await cache.match(request)\<close> for the first of the
    requests still to visit, with the \<open>entries\<close> collected so far;
  \<^item> \<open>AtEvictBlob response requests entries\<close>: \<open>await response.blob()\<close> for the response of
    the request just matched, with the requests after it;
  \<^item> \<open>AtEvictDelete entries freedSpace\<close>: \<open>await cache.delete(entry.request)\<close> for the first
    of the sorted entries still to visit;
  \<^item> \<open>AtEvictLRU\<close>: \<open>await this.evictLRU(size)\<close> in \<open>addToCache\<close>, when \<open>evictLRU\<close> has returned;
  \<^item> \<open>AtAddOpen\<close>: \<open>await caches.open(CACHE_NAME)\<close> in \<open>addToCache\<close>;
  \<^item> \<open>AtAddPut response\<close>: \<open>await cache.put(cacheKey, response)\<close>;
  \<^item> \<open>Returned\<close>: the call is over.

  Every entry that the service puts carries the metadata header, so the test
  \<open>if (metadataHeader)\<close> of \<open>evictLRU\<close> succeeds for every response.
\<close>

datatype suspended =
    AtCall
  | AtEvictOpen
  | AtEvictKeys
  | AtEvictMatch "jstring list" "CacheEntry list"
  | AtEvictBlob CacheEntry "jstring list" "CacheEntry list"
  | AtEvictDelete "CacheEntry list" int
  | AtEvictLRU
  | AtAddOpen
  | AtAddPut CacheEntry
  | Returned

text \<open>The end of \<open>evictLRU\<close>: \<open>this.cacheSize -= freedSpace\<close>, and the function returns.\<close>

definition evictDone :: "int \<Rightarrow> MediaCacheService \<Rightarrow> suspended \<times> MediaCacheService" where
  "evictDone freedSpace s = (AtEvictLRU, s\<lparr> cacheSize := cacheSize s - freedSpace \<rparr>)"

text \<open>
  The head of the eviction loop \<open>for (const entry of entries)\<close> with the test that breaks
  it, up to the \<open>await\<close> of the round; the test reads \<open>this.cacheSize\<close> as it is then.
\<close>

fun evictNext ::
  "int \<Rightarrow> CacheEntry list \<Rightarrow> int \<Rightarrow> MediaCacheService \<Rightarrow> suspended \<times> MediaCacheService" where
  "evictNext spaceNeeded [] freedSpace s = evictDone freedSpace s"
| "evictNext spaceNeeded (entry # rest) freedSpace s =
     (if belowThreshold (cacheSize s - freedSpace + spaceNeeded) then evictDone freedSpace s
      else (AtEvictDelete (entry # rest) freedSpace, s))"

text \<open>
  The head of the loop \<open>for (const request of requests)\<close>; after the last request the
  entries are sorted by \<open>lastAccessed\<close>, oldest first, and the eviction loop starts with
  \<open>freedSpace = 0\<close>.
\<close>

fun matchNext ::
  "int \<Rightarrow> jstring list \<Rightarrow> CacheEntry list \<Rightarrow> MediaCacheService \<Rightarrow> suspended \<times> MediaCacheService" where
  "matchNext spaceNeeded [] entries s =
     evictNext spaceNeeded (sort_key ce_lastAccessed entries) 0 s"
| "matchNext spaceNeeded (request # rest) entries s = (AtEvictMatch (request # rest) entries, s)"

text \<open>
  \<open>resume t fileId sz at s\<close>: the call \<open>addToCache(fileId, blob)\<close> for a blob of \<open>sz\<close> bytes,
  suspended at \<open>at\<close>, runs on from the state \<open>s\<close> of the service to its next \<open>await\<close>. The
  awaited operation of the Cache Storage takes effect when the call resumes; \<open>t\<close> is the
  value of \<open>Date.now()\<close>.
\<close>

fun resume ::
  "int \<Rightarrow> jstring \<Rightarrow> nat \<Rightarrow> suspended \<Rightarrow> MediaCacheService \<Rightarrow> suspended \<times> MediaCacheService" where
  "resume t fileId sz AtCall s =
     (if aboveThreshold (cacheSize s + int sz) then (AtEvictOpen, s) else (AtAddOpen, s))"
| "resume t fileId sz AtEvictOpen s = (AtEvictKeys, s)"
| "resume t fileId sz AtEvictKeys s =
     matchNext (int sz) (map ce_driveFileId (cacheStore s)) [] s"
| "resume t fileId sz (AtEvictMatch [] entries) s = matchNext (int sz) [] entries s"
| "resume t fileId sz (AtEvictMatch (request # rest) entries) s =
     (case cacheMatch request (cacheStore s) of
        None \<Rightarrow> matchNext (int sz) rest entries s
      | Some response \<Rightarrow> (AtEvictBlob response rest entries, s))"
| "resume t fileId sz (AtEvictBlob response rest entries) s =
     matchNext (int sz) rest (entries @ [response]) s"
| "resume t fileId sz (AtEvictDelete [] freedSpace) s = evictDone freedSpace s"
| "resume t fileId sz (AtEvictDelete (entry # rest) freedSpace) s =
     evictNext (int sz) rest (freedSpace + int (ce_size entry))
       (s\<lparr> cacheStore := cacheDelete (ce_driveFileId entry) (cacheStore s),
           memoryCache := memoryEvict (ce_driveFileId entry) (memoryCache s) \<rparr>)"
| "resume t fileId sz AtEvictLRU s = (AtAddOpen, s)"
| "resume t fileId sz AtAddOpen s =
     (AtAddPut \<lparr> ce_driveFileId = fileId, ce_size = sz, ce_lastAccessed = t \<rparr>, s)"
| "resume t fileId sz (AtAddPut response) s =
     (Returned, s\<lparr> cacheStore := cachePut response (cacheStore s),
                   cacheSize := cacheSize s + int sz \<rparr>)"
| "resume t fileId sz Returned s = (Returned, s)"

text \<open>
  Calls in progress together, as \<open>preloadMedia\<close> starts them in chunks of five with
  \<open>Promise.allSettled\<close>: each is a drive file id, a size and the await it is suspended at. A
  schedule names, step by step, the call that resumes and the value of \<open>Date.now()\<close>.
\<close>

definition resumeCall ::
  "(jstring \<times> nat \<times> suspended) list \<times> MediaCacheService \<Rightarrow> nat \<times> int
     \<Rightarrow> (jstring \<times> nat \<times> suspended) list \<times> MediaCacheService" where
  "resumeCall cs it =
     (if fst it < length (fst cs) then
        (case fst cs ! fst it of
           (fileId, sz, at) \<Rightarrow>
             (case resume (snd it) fileId sz at (snd cs) of
                (at', s') \<Rightarrow> ((fst cs)[fst it := (fileId, sz, at')], s')))
      else cs)"

definition interleaved ::
  "(nat \<times> int) list \<Rightarrow> (jstring \<times> nat \<times> suspended) list \<times> MediaCacheService
     \<Rightarrow> (jstring \<times> nat \<times> suspended) list \<times> MediaCacheService" where
  "interleaved schedule cs = foldl resumeCall cs schedule"

subsection \<open>A call that runs alone\<close>

text \<open>
  The number of steps that a call suspended at \<open>at\<close> can still take, at most.
\<close>

fun stepsLeft :: "suspended \<Rightarrow> MediaCacheService \<Rightarrow> nat" where
  "stepsLeft AtCall s = 8 + 3 * length (cacheStore s)"
| "stepsLeft AtEvictOpen s = 7 + 3 * length (cacheStore s)"
| "stepsLeft AtEvictKeys s = 6 + 3 * length (cacheStore s)"
| "stepsLeft (AtEvictMatch requests entries) s = 5 + length entries + 3 * length requests"
| "stepsLeft (AtEvictBlob response requests entries) s = 7 + length entries + 3 * length requests"
| "stepsLeft (AtEvictDelete entries freedSpace) s = 4 + length entries"
| "stepsLeft AtEvictLRU s = 3"
| "stepsLeft AtAddOpen s = 2"
| "stepsLeft (AtAddPut response) s = 1"
| "stepsLeft Returned s = 0"

text \<open>
  \<open>awaited t fileId sz at s\<close>: the call runs from \<open>at\<close> to its end with no other call running
  between its awaits, as when the caller awaits it before starting the next one.
\<close>

function (sequential) awaited ::
  "int \<Rightarrow> jstring \<Rightarrow> nat \<Rightarrow> suspended \<Rightarrow> MediaCacheService \<Rightarrow> MediaCacheService" where
  "awaited t fileId sz Returned s = s"
| "awaited t fileId sz at s =
     (case resume t fileId sz at s of (at', s') \<Rightarrow> awaited t fileId sz at' s')"
  by pat_completeness auto
termination
proof -
  have en: "stepsLeft (fst (evictNext sn es fr s)) (snd (evictNext sn es fr s)) \<le> 4 + length es"
    for sn es fr s
    by (cases es) (simp_all add: evictDone_def)
  have mn: "stepsLeft (fst (matchNext sn rs es s)) (snd (matchNext sn rs es s))
              \<le> 5 + length es + 3 * length rs" for sn rs es s
    using en [of sn "sort_key ce_lastAccessed es" 0 s] by (cases rs) simp_all
  have dec: "stepsLeft (fst (resume t k sz at s)) (snd (resume t k sz at s)) < stepsLeft at s"
    if "at \<noteq> Returned" for t k sz at s
  proof (cases at)
    case AtEvictKeys
    with mn [of "int sz" "map ce_driveFileId (cacheStore s)" "[]" s] show ?thesis
      by simp
  next
    case (AtEvictMatch rs es)
    show ?thesis
    proof (cases rs)
      case Nil
      with AtEvictMatch en [of "int sz" "sort_key ce_lastAccessed es" 0 s] show ?thesis
        by simp
    next
      case (Cons r rest)
      with AtEvictMatch mn [of "int sz" rest es s] show ?thesis
        by (simp split: option.splits)
    qed
  next
    case (AtEvictBlob e rs es)
    with mn [of "int sz" rs "es @ [e]" s] show ?thesis
      by simp
  next
    case (AtEvictDelete es fr)
    show ?thesis
    proof (cases es)
      case Nil
      with AtEvictDelete show ?thesis
        by (simp add: evictDone_def)
    next
      case (Cons e rest)
      with AtEvictDelete
        en [of "int sz" rest "fr + int (ce_size e)"
              "s\<lparr> cacheStore := cacheDelete (ce_driveFileId e) (cacheStore s),
                  memoryCache := memoryEvict (ce_driveFileId e) (memoryCache s) \<rparr>"]
      show ?thesis
        by simp
    qed
  qed (use that in simp_all)
  show ?thesis
  proof (relation "measure (\<lambda>(t, fileId, sz, at, s). stepsLeft at s)", goal_cases)
    case 1
    show ?case by simp
  qed (auto simp add: case_prod_unfold simp del: resume.simps stepsLeft.simps intro!: dec)
qed

text \<open>\<open>await this.addToCache(driveFileId, blob)\<close> at the time \<open>t\<close>, for the id \<open>fileId\<close> and a
  blob of \<open>sz\<close> bytes.\<close>

definition addToCache :: "MediaCacheService \<Rightarrow> int \<Rightarrow> jstring \<Rightarrow> nat \<Rightarrow> MediaCacheService" where
  "addToCache s t fileId sz = awaited t fileId sz AtCall s"

text \<open>
  \<open>fetchAndCache\<close> after a successful fetch of a blob of \<open>sz\<close> bytes for which
  \<open>URL.createObjectURL\<close> gave \<open>blobUrl\<close>: the URL returned to the caller and the new state.
\<close>

definition fetchAndCache ::
  "MediaCacheService \<Rightarrow> int \<Rightarrow> jstring \<Rightarrow> nat \<Rightarrow> jstring \<Rightarrow> jstring \<times> MediaCacheService" where
  "fetchAndCache s t fileId sz blobUrl =
     (blobUrl, addToCache (s\<lparr> memoryCache := (memoryCache s)(fileId \<mapsto> blobUrl) \<rparr>) t fileId sz)"

text \<open>
  A sequence of insertions, each a time, a drive file id and a size, where every insertion
  is over before the next one starts.
\<close>

definition insertAll :: "MediaCacheService \<Rightarrow> (int \<times> jstring \<times> nat) list \<Rightarrow> MediaCacheService" where
  "insertAll s ins = foldl (\<lambda>s' (t, k, sz). addToCache s' t k sz) s ins"

text \<open>
  What \<open>evictLRU\<close> does as a whole when it runs alone: the eviction loop over the entries
  sorted by \<open>lastAccessed\<close>, oldest first, on the store, the memory cache and \<open>freedSpace\<close>;
  \<open>cs\<close> is \<open>this.cacheSize\<close>, which nothing changes while the loop runs alone.
\<close>

fun evictLoop ::
  "int \<Rightarrow> int \<Rightarrow> CacheEntry list \<Rightarrow> CacheEntry list \<times> (jstring \<rightharpoonup> jstring) \<times> int
     \<Rightarrow> CacheEntry list \<times> (jstring \<rightharpoonup> jstring) \<times> int" where
  "evictLoop cs spaceNeeded [] st = st"
| "evictLoop cs spaceNeeded (entry # rest) (store, mem, freedSpace) =
     (if belowThreshold (cs - freedSpace + spaceNeeded) then (store, mem, freedSpace)
      else evictLoop cs spaceNeeded rest
             (cacheDelete (ce_driveFileId entry) store,
              memoryEvict (ce_driveFileId entry) mem,
              freedSpace + int (ce_size entry)))"

definition evictLRU :: "MediaCacheService \<Rightarrow> int \<Rightarrow> MediaCacheService" where
  "evictLRU s spaceNeeded =
     (let entries = sort_key ce_lastAccessed (cacheStore s);
          r = evictLoop (cacheSize s) spaceNeeded entries (cacheStore s, memoryCache s, 0)
      in s\<lparr> cacheStore := fst r, memoryCache := fst (snd r),
            cacheSize := cacheSize s - snd (snd r) \<rparr>)"

text \<open>The aggregate resident size: the bytes of all entries in the Cache Storage.\<close>

definition residentSize :: "CacheEntry list \<Rightarrow> int" where
  "residentSize store = int (sum_list (map ce_size store))"

text \<open>
  The size counter covers the resident size, and the store has one entry per key. \<open>init\<close>
  sets the counter to the resident size, and every insertion that runs alone keeps the
  counter at or above it.
\<close>

definition accounted :: "MediaCacheService \<Rightarrow> bool" where
  "accounted s \<longleftrightarrow>
     residentSize (cacheStore s) \<le> cacheSize s \<and> distinct (map ce_driveFileId (cacheStore s))"

definition emptyCache :: MediaCacheService where
  "emptyCache = \<lparr> cacheStore = [], memoryCache = Map.empty, cacheSize = 0 \<rparr>"

text \<open>
  Five calls for entries of 500000000 bytes that are in progress together, and the schedule
  that resumes them in turn, three rounds, until all have returned.
\<close>

definition fiveCalls :: "(jstring \<times> nat \<times> suspended) list" where
  "fiveCalls = map (\<lambda>k. (k, 500000000, AtCall)) [js ''a'', js ''b'', js ''c'', js ''d'', js ''e'']"

definition oneRound :: "(nat \<times> int) list" where
  "oneRound = [(0, 1), (1, 2), (2, 3), (3, 4), (4, 5)]"

definition roundRobin :: "(nat \<times> int) list" where
  "roundRobin = oneRound @ oneRound @ oneRound"

text \<open>A host for evaluation: ASCII case folding, local time zone UTC.\<close>

definition daysFromCivil :: "int \<Rightarrow> int \<Rightarrow> int \<Rightarrow> int" where
  "daysFromCivil y m d =
     (let y' = (if m \<le> 2 then y - 1 else y);
          era = y' div 400;
          yoe = y' - era * 400;
          doy = (153 * (if m > 2 then m - 3 else m + 9) + 2) div 5 + d - 1;
          doe = yoe * 365 + yoe div 4 - yoe div 100 + doy
      in era * 146097 + doe - 719468)"

definition utcDate :: "int \<Rightarrow> int \<Rightarrow> int \<Rightarrow> int \<Rightarrow> int \<Rightarrow> int \<Rightarrow> int" where
  "utcDate y mo d hh mi ss =
     (let ym = y + mo div 12; mn = mo mod 12
      in (daysFromCivil ym (mn + 1) 1 + d - 1) * 86400000 + hh * 3600000 + mi * 60000 + ss * 1000)"

definition utcHost :: host where
  "utcHost = \<lparr> toLowerCase = map asciiLower, mkDate = utcDate, dateNow = 1700000000000 \<rparr>"

text \<open>An example chat text: a message of John, an omitted image of the local user, a
  system line and an answer of the local user.\<close>

definition exampleChat :: jstring where
  "exampleChat =
     js ''12/31/2023, 11:45 PM - John: They added value to my life'' @ 10 #
     js ''12/31/2023, 11:46 PM - Rajiv: image omitted'' @ 10 #
     js ''12/31/2023, 11:47 PM - Encrypted chat'' @ 10 #
     js ''12/31/2023, 11:48 PM - Rajiv: ok''"

definition textMessage :: "jstring \<Rightarrow> int \<Rightarrow> jstring \<Rightarrow> Message" where
  "textMessage who ts body =
     \<lparr> msg_id = [], timestamp = ts, sender = who, msg_type = Ty_text, content = body,
       mediaUrl = None, mediaFileName = None, mediaMimeType = None, mediaSize = None,
       driveFileId = None, thumbnailUrl = None, isOutgoing = False, isEdited = None,
       quotedMessage = None, callDuration = None, callKind = None, callMissed = None \<rparr>"



section \<open>Properties of the merger\<close>



text \<open>
  C8. Merging exactly one source returns its messages sorted by timestamp ascending
  (stably), a permutation of the input of the same length; the result does not depend on
  any dedup key (the host that computes keys does not occur in it).
\<close>

theorem mergeMessages_single_source:
  "mergeMessages h [msgs] = sort_key timestamp msgs
   \<and> sorted (map timestamp (mergeMessages h [msgs]))
   \<and> mset (mergeMessages h [msgs]) = mset msgs
   \<and> length (mergeMessages h [msgs]) = length msgs"
  by (simp add: mergeMessages_def)

text \<open>
  C8, at a concrete input: a single source holding the same message twice keeps both.
\<close>

theorem mergeMessages_single_source_witness:
  "mergeMessages utcHost
     [[textMessage (js ''Alice'') 43200900 (js ''hello''),
       textMessage (js ''Alice'') 43200100 (js ''hello''),
       textMessage (js ''Alice'') 43200900 (js ''hello'')]]
   = [textMessage (js ''Alice'') 43200100 (js ''hello''),
      textMessage (js ''Alice'') 43200900 (js ''hello''),
      textMessage (js ''Alice'') 43200900 (js ''hello'')]"
  using mergeMessages_single_source
    [of utcHost "[textMessage (js ''Alice'') 43200900 (js ''hello''),
       textMessage (js ''Alice'') 43200100 (js ''hello''),
       textMessage (js ''Alice'') 43200900 (js ''hello'')]"]
  by (simp add: textMessage_def)



section \<open>Properties of the date-order inference\<close>

lemma inferStep_counts:
  "inferStep ev line =
     (fst ev + (if dayFirstEvidence line then 1 else 0),
      snd ev + (if monthFirstEvidence line then 1 else 0))"
  by (cases ev)
    (simp add: inferStep_def dayFirstEvidence_def monthFirstEvidence_def leadingDate_def
      Let_def split: option.splits)

lemma inferLoop_counts:
  "foldl inferStep ev ls =
     (fst ev + length (filter dayFirstEvidence ls), snd ev + length (filter monthFirstEvidence ls))"
proof (induction ls arbitrary: ev)
  case Nil
  show ?case by simp
next
  case (Cons l ls)
  have "foldl inferStep ev (l # ls) = foldl inferStep (inferStep ev l) ls"
    by simp
  also have "\<dots> = (fst (inferStep ev l) + length (filter dayFirstEvidence ls),
                     snd (inferStep ev l) + length (filter monthFirstEvidence ls))"
    by (rule Cons.IH)
  also have "\<dots> = (fst ev + length (filter dayFirstEvidence (l # ls)),
                     snd ev + length (filter monthFirstEvidence (l # ls)))"
    unfolding inferStep_counts [of ev l] by simp
  finally show ?case .
qed

lemma inferDateOrder_counts:
  "inferDateOrder lines =
     (let d = length (filter dayFirstEvidence (take 800 lines));
          m = length (filter monthFirstEvidence (take 800 lines))
      in if d > 0 \<and> m = 0 then DMY else if m > 0 \<and> d = 0 then MDY
         else if m > d then MDY else DMY)"
proof -
  have "take (min (length lines) 800) lines = take 800 lines"
    by (simp add: min_def)
  then show ?thesis
    by (simp add: inferDateOrder_def inferLoop_counts Let_def)
qed

text \<open>
  C3. Over the first 800 lines: day-first when some scanned line has a first field above
  12 and none a second field above 12; month-first in the symmetric case; with both kinds
  of evidence the higher count wins and a tie is day-first; with no evidence day-first.
\<close>

theorem inferDateOrder_rule:
  fixes lines :: "jstring list"
  defines "scanned \<equiv> take 800 lines"
  shows "((\<exists>l \<in> set scanned. dayFirstEvidence l) \<and> (\<forall>l \<in> set scanned. \<not> monthFirstEvidence l)
            \<longrightarrow> inferDateOrder lines = DMY)
       \<and> ((\<exists>l \<in> set scanned. monthFirstEvidence l) \<and> (\<forall>l \<in> set scanned. \<not> dayFirstEvidence l)
            \<longrightarrow> inferDateOrder lines = MDY)
       \<and> ((\<exists>l \<in> set scanned. dayFirstEvidence l) \<and> (\<exists>l \<in> set scanned. monthFirstEvidence l)
            \<longrightarrow> inferDateOrder lines =
                  (if length (filter monthFirstEvidence scanned) > length (filter dayFirstEvidence scanned)
                   then MDY else DMY))
       \<and> ((\<forall>l \<in> set scanned. \<not> dayFirstEvidence l) \<and> (\<forall>l \<in> set scanned. \<not> monthFirstEvidence l)
            \<longrightarrow> inferDateOrder lines = DMY)"
proof -
  have pos: "\<And>P. (0 < length (filter P scanned)) = (\<exists>l \<in> set scanned. P l)"
    by (simp add: filter_empty_conv)
  have zero: "\<And>P. (length (filter P scanned) = 0) = (\<forall>l \<in> set scanned. \<not> P l)"
    by (simp add: filter_empty_conv)
  show ?thesis
    unfolding inferDateOrder_counts Let_def scanned_def [symmetric]
    using pos [of dayFirstEvidence] pos [of monthFirstEvidence]
      zero [of dayFirstEvidence] zero [of monthFirstEvidence]
    by auto
qed

text \<open>
  C3, at the specification's input: a line dated 31/01/2024 decides day-first, whatever
  the ambiguous 02/03/2024 after it.
\<close>

theorem inferDateOrder_rule_witness:
  "dayFirstEvidence (js ''31/01/2024, 10:00 - A: x'')
   \<and> \<not> monthFirstEvidence (js ''31/01/2024, 10:00 - A: x'')
   \<and> \<not> monthFirstEvidence (js ''02/03/2024, 10:05 - A: y'')
   \<and> inferDateOrder [js ''31/01/2024, 10:00 - A: x'', js ''02/03/2024, 10:05 - A: y''] = DMY"
proof -
  have l1: "leadingDate (js ''31/01/2024, 10:00 - A: x'') = Some (31, 1)"
    by (simp add: leadingDate_def dateStartRegex_def parseInt_def rx_defs)
  have l2: "leadingDate (js ''02/03/2024, 10:05 - A: y'') = Some (2, 3)"
    by (simp add: leadingDate_def dateStartRegex_def parseInt_def rx_defs)
  have d1: "dayFirstEvidence (js ''31/01/2024, 10:00 - A: x'')"
    and m1: "\<not> monthFirstEvidence (js ''31/01/2024, 10:00 - A: x'')"
    and m2: "\<not> monthFirstEvidence (js ''02/03/2024, 10:05 - A: y'')"
    by (simp_all add: dayFirstEvidence_def monthFirstEvidence_def l1 l2)
  from inferDateOrder_rule [of "[js ''31/01/2024, 10:00 - A: x'', js ''02/03/2024, 10:05 - A: y'']"]
    d1 m1 m2
  show ?thesis by simp
qed

section \<open>Properties of the bubble grouping\<close>

lemma differenceInMinutes_window:
  "differenceInMinutes a b \<le> 10 \<longleftrightarrow> a - b < 660000"
  unfolding differenceInMinutes_def Let_def by (cases "a - b \<ge> 0") auto

text \<open>
  The loop from a state with an open group that was started by \<open>f\<close>, and from a state with
  no open group.
\<close>

lemma bubble_loop:
  "(msg_type f \<noteq> Ty_system \<longrightarrow>
      closeGroups (foldl bubbleStep (gs, Some ((newGroup f)\<lparr> bg_messages := f # run \<rparr>)) ms)
        = gs @ [(newGroup f)\<lparr> bg_messages := f # run @ takeWhile (extendsGroup f) ms \<rparr>]
             @ bubbleRuns (dropWhile (extendsGroup f) ms))
   \<and> closeGroups (foldl bubbleStep (gs, None) ms) = gs @ bubbleRuns ms"
proof (induction ms arbitrary: gs f run)
  case Nil
  show ?case by (simp add: closeGroups_def)
next
  case (Cons m ms)
  have none: "closeGroups (foldl bubbleStep (gs, None) (m # ms)) = gs @ bubbleRuns (m # ms)"
  proof (cases "msg_type m = Ty_system")
    case True
    then have "bubbleStep (gs, None) m = (gs @ [systemGroup m], None)"
      by (simp add: bubbleStep_def)
    with True show ?thesis
      using Cons.IH [of f "gs @ [systemGroup m]" run]
      by (simp add: bubbleRuns.simps(2))
  next
    case False
    then have "bubbleStep (gs, None) m = (gs, Some ((newGroup m)\<lparr> bg_messages := m # [] \<rparr>))"
      by (simp add: bubbleStep_def newGroup_def)
    with False show ?thesis
      using Cons.IH [of m gs "[]"]
      by (simp add: bubbleRuns.simps(2))
  qed
  have some: "closeGroups (foldl bubbleStep (gs, Some ((newGroup f)\<lparr> bg_messages := f # run \<rparr>)) (m # ms))
        = gs @ [(newGroup f)\<lparr> bg_messages := f # run @ takeWhile (extendsGroup f) (m # ms) \<rparr>]
             @ bubbleRuns (dropWhile (extendsGroup f) (m # ms))"
    if f: "msg_type f \<noteq> Ty_system"
  proof -
    let ?g = "(newGroup f)\<lparr> bg_messages := f # run \<rparr>"
    consider (sys) "msg_type m = Ty_system"
      | (ext) "msg_type m \<noteq> Ty_system" "extendsGroup f m"
      | (new) "msg_type m \<noteq> Ty_system" "\<not> extendsGroup f m"
      by blast
    then show ?thesis
    proof cases
      case sys
      then have step: "bubbleStep (gs, Some ?g) m = (gs @ [?g] @ [systemGroup m], None)"
        by (simp add: bubbleStep_def)
      from sys have no: "\<not> extendsGroup f m"
        by (simp add: extendsGroup_def)
      show ?thesis
        using Cons.IH [of f "gs @ [?g] @ [systemGroup m]" run] sys no
        by (simp add: step bubbleRuns.simps(2))
    next
      case ext
      then have step: "bubbleStep (gs, Some ?g) m
          = (gs, Some ((newGroup f)\<lparr> bg_messages := f # (run @ [m]) \<rparr>))"
        by (simp add: bubbleStep_def extendsGroup_def newGroup_def differenceInMinutes_window)
      show ?thesis
        using Cons.IH [of f gs "run @ [m]"] f ext
        by (simp add: step)
    next
      case new
      then have step: "bubbleStep (gs, Some ?g) m
          = (gs @ [?g], Some ((newGroup m)\<lparr> bg_messages := m # [] \<rparr>))"
        by (auto simp add: bubbleStep_def extendsGroup_def newGroup_def differenceInMinutes_window)
      show ?thesis
        using Cons.IH [of m "gs @ [?g]" "[]"] new
        by (simp add: step bubbleRuns.simps(2))
    qed
  qed
  from none some show ?case by blast
qed

text \<open>
  C4 (amended). Bubble grouping cuts the sequence into runs measured from the first
  message of each group: a non-system message extends the open group exactly when its
  sender and outgoing polarity are the group's and it comes less than 11 minutes (at most
  10 full minutes) after the group's first message; a system message closes the open group
  and is a singleton group.
\<close>

theorem groupMessagesIntoBubbles_runs:
  "groupMessagesIntoBubbles messages = bubbleRuns messages"
  using bubble_loop [THEN conjunct2, of "[]" messages]
  by (simp add: groupMessagesIntoBubbles_def)

text \<open>
  C4, at the specification's input: Bob at 10:00, 10:09, 10:19 and 10:25. The first group
  holds 10:00 and 10:09; 10:19 is 19 minutes after 10:00 and opens a group, which 10:25
  (6 minutes after 10:19) extends.
\<close>

theorem groupMessagesIntoBubbles_runs_witness:
  "groupMessagesIntoBubbles
     [textMessage (js ''Bob'') 36000000 (js ''a''), textMessage (js ''Bob'') 36540000 (js ''b''),
      textMessage (js ''Bob'') 37140000 (js ''c''), textMessage (js ''Bob'') 37500000 (js ''d'')]
   = [(newGroup (textMessage (js ''Bob'') 36000000 (js ''a'')))
        \<lparr> bg_messages := [textMessage (js ''Bob'') 36000000 (js ''a''),
                           textMessage (js ''Bob'') 36540000 (js ''b'')] \<rparr>,
      (newGroup (textMessage (js ''Bob'') 37140000 (js ''c'')))
        \<lparr> bg_messages := [textMessage (js ''Bob'') 37140000 (js ''c''),
                           textMessage (js ''Bob'') 37500000 (js ''d'')] \<rparr>]"
  using groupMessagesIntoBubbles_runs
    [of "[textMessage (js ''Bob'') 36000000 (js ''a''), textMessage (js ''Bob'') 36540000 (js ''b''),
          textMessage (js ''Bob'') 37140000 (js ''c''), textMessage (js ''Bob'') 37500000 (js ''d'')]"]
  by (simp add: bubbleRuns.simps(2) extendsGroup_def textMessage_def)

text \<open>
  C4 as stated fails: a message 10 minutes and 30 seconds after the first message of the
  group, more than 10 minutes, still extends the group.
\<close>

theorem groupMessagesIntoBubbles_window_counterexample:
  "timestamp (textMessage (js ''Bob'') 36630000 (js ''b''))
     - timestamp (textMessage (js ''Bob'') 36000000 (js ''a'')) > 10 * 60000
   \<and> groupMessagesIntoBubbles
       [textMessage (js ''Bob'') 36000000 (js ''a''), textMessage (js ''Bob'') 36630000 (js ''b'')]
     = [(newGroup (textMessage (js ''Bob'') 36000000 (js ''a'')))
          \<lparr> bg_messages := [textMessage (js ''Bob'') 36000000 (js ''a''),
                             textMessage (js ''Bob'') 36630000 (js ''b'')] \<rparr>]"
  by (simp add: groupMessagesIntoBubbles_def closeGroups_def bubbleStep_def newGroup_def
      differenceInMinutes_def textMessage_def)

section \<open>Properties of the media cache\<close>

subsection \<open>A call that runs alone\<close>

text \<open>
  When a call runs alone, the loop over the requests finds every entry of the store, and
  the eviction loop is \<open>evictLoop\<close>; so the call is \<open>evictLRU\<close> as a whole, if the test at
  its entry asks for it, followed by the put and the addition to the counter.
\<close>

lemma awaited_evictNext:
  "(case evictNext (int sz) es fr s of (at, s') \<Rightarrow> awaited t k sz at s')
     = awaited t k sz AtEvictLRU
         (s\<lparr> cacheStore :=
                fst (evictLoop (cacheSize s) (int sz) es (cacheStore s, memoryCache s, fr)),
             memoryCache :=
                fst (snd (evictLoop (cacheSize s) (int sz) es (cacheStore s, memoryCache s, fr))),
             cacheSize := cacheSize s
                - snd (snd (evictLoop (cacheSize s) (int sz) es (cacheStore s, memoryCache s, fr))) \<rparr>)"
proof (induction es arbitrary: fr s)
  case Nil
  show ?case
    by (simp add: evictDone_def)
next
  case (Cons e rest)
  show ?case
  proof (cases "belowThreshold (cacheSize s - fr + int sz)")
    case True
    then show ?thesis
      by (simp add: evictDone_def)
  next
    case False
    let ?s' = "s\<lparr> cacheStore := cacheDelete (ce_driveFileId e) (cacheStore s),
                    memoryCache := memoryEvict (ce_driveFileId e) (memoryCache s) \<rparr>"
    from False have "(case evictNext (int sz) (e # rest) fr s of (at, s') \<Rightarrow> awaited t k sz at s')
        = (case evictNext (int sz) rest (fr + int (ce_size e)) ?s' of
             (at, s') \<Rightarrow> awaited t k sz at s')"
      by simp
    also note Cons.IH [of "fr + int (ce_size e)" ?s']
    finally show ?thesis
      using False by simp
  qed
qed

lemma awaited_matchNext:
  assumes "\<forall>r \<in> set rs. cacheMatch r (cacheStore s) \<noteq> None"
  shows "(case matchNext (int sz) rs es s of (at, s') \<Rightarrow> awaited t k sz at s')
     = (case evictNext (int sz)
               (sort_key ce_lastAccessed (es @ map (\<lambda>r. the (cacheMatch r (cacheStore s))) rs)) 0 s of
          (at, s') \<Rightarrow> awaited t k sz at s')"
  using assms
proof (induction rs arbitrary: es)
  case Nil
  show ?case
    by simp
next
  case (Cons r rest)
  from Cons.prems obtain e where e: "cacheMatch r (cacheStore s) = Some e"
    by auto
  from Cons.prems have rest: "\<forall>r \<in> set rest. cacheMatch r (cacheStore s) \<noteq> None"
    by simp
  have "(case matchNext (int sz) (r # rest) es s of (at, s') \<Rightarrow> awaited t k sz at s')
      = (case matchNext (int sz) rest (es @ [e]) s of (at, s') \<Rightarrow> awaited t k sz at s')"
    by (simp add: e)
  also note Cons.IH [OF rest, of "es @ [e]"]
  finally show ?case
    by (simp add: e)
qed

lemma cacheMatch_own:
  assumes "distinct (map ce_driveFileId store)" and "x \<in> set store"
  shows "cacheMatch (ce_driveFileId x) store = Some x"
  using assms
proof (induction store)
  case Nil
  then show ?case by simp
next
  case (Cons a store)
  show ?case
  proof (cases "x = a")
    case True
    then show ?thesis
      by (simp add: cacheMatch_def)
  next
    case False
    with Cons.prems have x: "x \<in> set store"
      by simp
    with Cons.prems have "ce_driveFileId a \<noteq> ce_driveFileId x"
      by auto
    with Cons.IH x Cons.prems show ?thesis
      by (simp add: cacheMatch_def)
  qed
qed

lemma cacheMatch_keys:
  assumes "distinct (map ce_driveFileId store)"
  shows "map ((\<lambda>r. the (cacheMatch r store)) \<circ> ce_driveFileId) store = store"
  using cacheMatch_own [OF assms] by (simp add: map_idI)

lemma addToCache_alone:
  assumes "distinct (map ce_driveFileId (cacheStore s))"
  shows "addToCache s t k sz =
     (let s1 = (if aboveThreshold (cacheSize s + int sz) then evictLRU s (int sz) else s)
      in s1\<lparr> cacheStore :=
               cachePut \<lparr> ce_driveFileId = k, ce_size = sz, ce_lastAccessed = t \<rparr> (cacheStore s1),
             cacheSize := cacheSize s1 + int sz \<rparr>)"
proof (cases "aboveThreshold (cacheSize s + int sz)")
  case False
  then show ?thesis
    by (simp add: addToCache_def)
next
  case True
  have found: "\<forall>r \<in> set (map ce_driveFileId (cacheStore s)). cacheMatch r (cacheStore s) \<noteq> None"
    using cacheMatch_own [OF assms] by auto
  from True have "addToCache s t k sz
      = (case matchNext (int sz) (map ce_driveFileId (cacheStore s)) [] s of
           (at, s') \<Rightarrow> awaited t k sz at s')"
    by (simp add: addToCache_def del: matchNext.simps)
  also note awaited_matchNext [OF found]
  also note awaited_evictNext
  finally show ?thesis
    using True by (simp add: cacheMatch_keys [OF assms] evictLRU_def Let_def)
qed

subsection \<open>The threshold\<close>

lemma sizes_submset:
  assumes "mset ps \<subseteq># mset qs"
  shows "sum_list (map ce_size ps) \<le> sum_list (map ce_size qs)"
proof -
  from assms obtain c where c: "mset qs = mset ps + c"
    by (auto simp: mset_subset_eq_exists_conv)
  have "sum_list (map ce_size qs) = sum_mset (image_mset ce_size (mset qs))"
    by (metis mset_map sum_mset_sum_list)
  also have "\<dots> = sum_mset (image_mset ce_size (mset ps)) + sum_mset (image_mset ce_size c)"
    by (simp add: c)
  also have "sum_mset (image_mset ce_size (mset ps)) = sum_list (map ce_size ps)"
    by (metis mset_map sum_mset_sum_list)
  finally show ?thesis by simp
qed

lemma sizes_partition:
  "sum_list (map ce_size (filter P xs)) + sum_list (map ce_size (filter (\<lambda>x. \<not> P x) xs))
     = sum_list (map ce_size xs)"
  by (induction xs) auto

lemma take_submset: "mset (take j xs) \<subseteq># mset xs"
  by (metis append_take_drop_id mset_append mset_subset_eq_add_left)

lemma evicted_bound:
  assumes "mset ps \<subseteq># mset store"
  shows "residentSize (filter (\<lambda>x. ce_driveFileId x \<notin> ce_driveFileId ` set ps) store)
           + int (sum_list (map ce_size ps)) \<le> residentSize store"
proof -
  let ?in = "\<lambda>x. ce_driveFileId x \<in> ce_driveFileId ` set ps"
  have "filter ?in ps = ps"
    by (simp add: filter_id_conv)
  then have "mset ps = filter_mset ?in (mset ps)"
    by (metis mset_filter)
  also have "\<dots> \<subseteq># filter_mset ?in (mset store)"
    using assms by (rule multiset_filter_mono)
  finally have "mset ps \<subseteq># mset (filter ?in store)"
    by simp
  then have "sum_list (map ce_size ps) \<le> sum_list (map ce_size (filter ?in store))"
    by (rule sizes_submset)
  with sizes_partition [of ?in store] show ?thesis
    by (simp add: residentSize_def)
qed

lemma evictLoop_prefix:
  "\<exists>j \<le> length es.
     fst (evictLoop cs need es (store, mem, fr))
       = filter (\<lambda>x. ce_driveFileId x \<notin> ce_driveFileId ` set (take j es)) store
     \<and> snd (snd (evictLoop cs need es (store, mem, fr)))
       = fr + int (sum_list (map ce_size (take j es)))
     \<and> (j < length es \<longrightarrow>
          belowThreshold (cs - snd (snd (evictLoop cs need es (store, mem, fr))) + need))"
proof (induction es arbitrary: store mem fr)
  case Nil
  show ?case by simp
next
  case (Cons e es)
  show ?case
  proof (cases "belowThreshold (cs - fr + need)")
    case True
    then show ?thesis
      by (intro exI [of _ 0]) simp
  next
    case False
    from Cons.IH [of "cacheDelete (ce_driveFileId e) store" "memoryEvict (ce_driveFileId e) mem"
        "fr + int (ce_size e)"]
    obtain j where j: "j \<le> length es"
      and st: "fst (evictLoop cs need es (cacheDelete (ce_driveFileId e) store,
                 memoryEvict (ce_driveFileId e) mem, fr + int (ce_size e)))
             = filter (\<lambda>x. ce_driveFileId x \<notin> ce_driveFileId ` set (take j es))
                 (cacheDelete (ce_driveFileId e) store)"
      and fr: "snd (snd (evictLoop cs need es (cacheDelete (ce_driveFileId e) store,
                 memoryEvict (ce_driveFileId e) mem, fr + int (ce_size e))))
             = fr + int (ce_size e) + int (sum_list (map ce_size (take j es)))"
      and br: "j < length es \<longrightarrow>
          belowThreshold (cs - snd (snd (evictLoop cs need es (cacheDelete (ce_driveFileId e) store,
                 memoryEvict (ce_driveFileId e) mem, fr + int (ce_size e)))) + need)"
      by blast
    have flt: "filter (\<lambda>x. ce_driveFileId x \<notin> ce_driveFileId ` set (take j es))
                 (cacheDelete (ce_driveFileId e) store)
             = filter (\<lambda>x. ce_driveFileId x \<notin> ce_driveFileId ` set (take (Suc j) (e # es))) store"
      by (auto simp: cacheDelete_def intro: filter_cong)
    from False j st fr br flt show ?thesis
      by (intro exI [of _ "Suc j"]) simp
  qed
qed

lemma residentSize_nonneg: "0 \<le> residentSize store"
  by (simp add: residentSize_def)

lemma residentSize_cachePut:
  "residentSize (cachePut e store) \<le> residentSize store + int (ce_size e)"
proof -
  have "sum_list (map ce_size (filter (\<lambda>x. ce_driveFileId x \<noteq> ce_driveFileId e) store))
          \<le> sum_list (map ce_size store)"
    by (rule sum_list_filter_le_nat)
  then show ?thesis
    by (simp add: cachePut_def cacheDelete_def residentSize_def)
qed

lemma distinct_cachePut:
  assumes "distinct (map ce_driveFileId store)"
  shows "distinct (map ce_driveFileId (cachePut e store))"
  using assms by (auto simp: cachePut_def cacheDelete_def distinct_map_filter)

text \<open>
  \<open>evictLRU\<close> keeps the counter above the resident size, and it ends either with room for
  the space needed below the threshold or with an empty store.
\<close>

lemma evictLRU_result:
  assumes "accounted s"
  shows "accounted (evictLRU s need)
         \<and> (belowThreshold (cacheSize (evictLRU s need) + need) \<or> cacheStore (evictLRU s need) = [])"
proof -
  let ?es = "sort_key ce_lastAccessed (cacheStore s)"
  let ?r = "evictLoop (cacheSize s) need ?es (cacheStore s, memoryCache s, 0)"
  from evictLoop_prefix [of ?es "cacheSize s" need "cacheStore s" "memoryCache s" 0]
  obtain j where j: "j \<le> length ?es"
    and st: "fst ?r = filter (\<lambda>x. ce_driveFileId x \<notin> ce_driveFileId ` set (take j ?es)) (cacheStore s)"
    and fr: "snd (snd ?r) = int (sum_list (map ce_size (take j ?es)))"
    and br: "j < length ?es \<longrightarrow> belowThreshold (cacheSize s - snd (snd ?r) + need)"
    by auto
  have "mset (take j ?es) \<subseteq># mset ?es"
    by (rule take_submset)
  then have "mset (take j ?es) \<subseteq># mset (cacheStore s)"
    by simp
  from evicted_bound [OF this] st fr
  have "residentSize (fst ?r) + snd (snd ?r) \<le> residentSize (cacheStore s)"
    by simp
  moreover from assms st have "distinct (map ce_driveFileId (fst ?r))"
    by (simp add: accounted_def distinct_map_filter)
  ultimately have acc: "accounted (evictLRU s need)"
    using assms by (simp add: accounted_def evictLRU_def Let_def)
  have "belowThreshold (cacheSize (evictLRU s need) + need) \<or> cacheStore (evictLRU s need) = []"
  proof (cases "j < length ?es")
    case True
    with br show ?thesis
      by (simp add: evictLRU_def Let_def)
  next
    case False
    with j have "take j ?es = ?es" by simp
    with st have "fst ?r = []"
      by (simp add: filter_empty_conv)
    then show ?thesis
      by (simp add: evictLRU_def Let_def)
  qed
  with acc show ?thesis by simp
qed

lemma addToCache_accounted:
  assumes "accounted s"
  shows "accounted (addToCache s t k sz)"
proof -
  let ?e = "\<lparr> ce_driveFileId = k, ce_size = sz, ce_lastAccessed = t \<rparr>"
  let ?s1 = "if aboveThreshold (cacheSize s + int sz) then evictLRU s (int sz) else s"
  from assms have keyed: "distinct (map ce_driveFileId (cacheStore s))"
    by (simp add: accounted_def)
  from assms evictLRU_result [OF assms, of "int sz"] have "accounted ?s1"
    by simp
  with residentSize_cachePut [of ?e "cacheStore ?s1"] distinct_cachePut [of "cacheStore ?s1" ?e]
  show ?thesis
    by (simp add: addToCache_alone [OF keyed] Let_def accounted_def)
qed

lemma insertAll_accounted:
  "accounted s \<Longrightarrow> accounted (insertAll s ins)"
proof (induction ins arbitrary: s)
  case Nil
  then show ?case by (simp add: insertAll_def)
next
  case (Cons x ins)
  obtain t k sz where x: "x = (t, k, sz)"
    by (cases x) auto
  from Cons.prems have "accounted (addToCache s t k sz)"
    by (rule addToCache_accounted)
  from Cons.IH [OF this] show ?case
    by (simp add: insertAll_def x)
qed

lemma addToCache_fits:
  assumes acc: "accounted s" and fits: "\<not> aboveThreshold (int sz)"
  shows "\<not> aboveThreshold (residentSize (cacheStore (addToCache s t k sz)))"
proof (cases "aboveThreshold (cacheSize s + int sz)")
  case False
  from acc have keyed: "distinct (map ce_driveFileId (cacheStore s))"
    by (simp add: accounted_def)
  from residentSize_cachePut [of "\<lparr> ce_driveFileId = k, ce_size = sz, ce_lastAccessed = t \<rparr>" "cacheStore s"]
    acc False
  show ?thesis
    by (simp add: addToCache_alone [OF keyed] Let_def accounted_def aboveThreshold_def)
next
  case True
  let ?e = "\<lparr> ce_driveFileId = k, ce_size = sz, ce_lastAccessed = t \<rparr>"
  let ?s1 = "evictLRU s (int sz)"
  from acc have keyed: "distinct (map ce_driveFileId (cacheStore s))"
    by (simp add: accounted_def)
  from evictLRU_result [OF acc, of "int sz"]
  have acc1: "accounted ?s1"
    and room: "belowThreshold (cacheSize ?s1 + int sz) \<or> cacheStore ?s1 = []"
    by simp_all
  from room have "\<not> aboveThreshold (residentSize (cachePut ?e (cacheStore ?s1)))"
  proof
    assume "belowThreshold (cacheSize ?s1 + int sz)"
    with residentSize_cachePut [of ?e "cacheStore ?s1"] acc1 show ?thesis
      by (simp add: accounted_def aboveThreshold_def belowThreshold_def)
  next
    assume "cacheStore ?s1 = []"
    with fits show ?thesis
      by (simp add: cachePut_def cacheDelete_def residentSize_def)
  qed
  with True show ?thesis
    by (simp add: addToCache_alone [OF keyed] Let_def)
qed

lemma addToCache_oversized:
  assumes acc: "accounted s" and big: "aboveThreshold (int sz)"
  shows "cacheStore (addToCache s t k sz)
           = [\<lparr> ce_driveFileId = k, ce_size = sz, ce_lastAccessed = t \<rparr>]"
proof -
  let ?s1 = "evictLRU s (int sz)"
  from acc have keyed: "distinct (map ce_driveFileId (cacheStore s))"
    by (simp add: accounted_def)
  from acc residentSize_nonneg [of "cacheStore s"] have "0 \<le> cacheSize s"
    by (simp add: accounted_def)
  with big have above: "aboveThreshold (cacheSize s + int sz)"
    by (simp add: aboveThreshold_def)
  from evictLRU_result [OF acc, of "int sz"]
  have acc1: "accounted ?s1"
    and room: "belowThreshold (cacheSize ?s1 + int sz) \<or> cacheStore ?s1 = []"
    by simp_all
  from acc1 residentSize_nonneg [of "cacheStore ?s1"] have "0 \<le> cacheSize ?s1"
    by (simp add: accounted_def)
  with big have "\<not> belowThreshold (cacheSize ?s1 + int sz)"
    by (simp add: aboveThreshold_def belowThreshold_def)
  with room have "cacheStore ?s1 = []"
    by simp
  with above show ?thesis
    by (simp add: addToCache_alone [OF keyed] Let_def cachePut_def cacheDelete_def)
qed

text \<open>
  C1 (amended). Take insertions that do not overlap, each over before the next one
  starts, into a cache whose size counter covers its resident size. After any sequence of
  them, the insertion of an entry whose own size is at most the threshold leaves the
  aggregate resident size at most the threshold; an entry whose own size is above the
  threshold is persisted as well, as the only entry of the store.
\<close>

theorem addToCache_threshold:
  assumes "accounted s"
  shows "(\<not> aboveThreshold (int sz) \<longrightarrow>
            \<not> aboveThreshold (residentSize (cacheStore (addToCache (insertAll s ins) t k sz))))
       \<and> (aboveThreshold (int sz) \<longrightarrow>
            cacheStore (addToCache (insertAll s ins) t k sz)
              = [\<lparr> ce_driveFileId = k, ce_size = sz, ce_lastAccessed = t \<rparr>])"
  using addToCache_fits [OF insertAll_accounted [OF assms]]
    addToCache_oversized [OF insertAll_accounted [OF assms]]
  by blast

lemmas cache_defs =
  addToCache_def evictDone_def cachePut_def cacheDelete_def cacheMatch_def memoryEvict_def
  insertAll_def emptyCache_def fetchAndCache_def residentSize_def accounted_def
  aboveThreshold_def belowThreshold_def MAX_CACHE_SIZE_def

text \<open>
  C1, at a concrete input: after a first entry of 1000000000 bytes a second one of the same
  size evicts the first and stays alone; after both, an entry of 2000000000 bytes, above
  the threshold, is the only entry of the store.
\<close>

theorem addToCache_threshold_witness:
  "accounted emptyCache
   \<and> \<not> aboveThreshold (int 1000000000)
   \<and> \<not> aboveThreshold (residentSize (cacheStore
         (addToCache (insertAll emptyCache [(1, js ''a'', 1000000000)]) 2 (js ''b'') 1000000000)))
   \<and> cacheStore (addToCache (insertAll emptyCache [(1, js ''a'', 1000000000)]) 2 (js ''b'') 1000000000)
       = [\<lparr> ce_driveFileId = js ''b'', ce_size = 1000000000, ce_lastAccessed = 2 \<rparr>]
   \<and> aboveThreshold (int 2000000000)
   \<and> cacheStore (addToCache (insertAll emptyCache [(1, js ''a'', 1000000000)]) 3 (js ''c'') 2000000000)
       = [\<lparr> ce_driveFileId = js ''c'', ce_size = 2000000000, ce_lastAccessed = 3 \<rparr>]"
proof -
  have acc: "accounted emptyCache"
    by (simp add: cache_defs)
  have fits: "\<not> aboveThreshold (int 1000000000)"
    by (simp add: cache_defs)
  have big: "aboveThreshold (int 2000000000)"
    by (simp add: cache_defs)
  have second: "cacheStore (addToCache (insertAll emptyCache [(1, js ''a'', 1000000000)]) 2 (js ''b'') 1000000000)
       = [\<lparr> ce_driveFileId = js ''b'', ce_size = 1000000000, ce_lastAccessed = 2 \<rparr>]"
    by (simp add: cache_defs js_def)
  from addToCache_threshold [OF acc, of 1000000000 "[(1, js ''a'', 1000000000)]" 2 "js ''b''"]
    addToCache_threshold [OF acc, of 2000000000 "[(1, js ''a'', 1000000000)]" 3 "js ''c''"]
    acc fits big second
  show ?thesis by simp
qed

text \<open>
  C1 as stated fails: an entry of 2000000000 bytes, above the threshold on its own, is
  fetched, returned to the caller and persisted, and the resident size is then above the
  threshold.
\<close>

theorem fetchAndCache_oversized_counterexample:
  "aboveThreshold (int 2000000000)
   \<and> fst (fetchAndCache emptyCache 1 (js ''big'') 2000000000 (js ''blob:1'')) = js ''blob:1''
   \<and> cacheStore (snd (fetchAndCache emptyCache 1 (js ''big'') 2000000000 (js ''blob:1'')))
       = [\<lparr> ce_driveFileId = js ''big'', ce_size = 2000000000, ce_lastAccessed = 1 \<rparr>]
   \<and> aboveThreshold (residentSize (cacheStore
         (snd (fetchAndCache emptyCache 1 (js ''big'') 2000000000 (js ''blob:1'')))))"
  by (simp add: cache_defs)

subsection \<open>Calls that overlap\<close>

text \<open>
  The bound is one of calls that run alone. Five calls for entries of 500000000 bytes,
  started together on the empty cache, all pass the test at their entry before any of them
  has added its size to the counter; none evicts, all five entries stay, and the resident
  size is above the threshold although no entry is.
\<close>

lemma overlapping_calls_exceed:
  "\<not> aboveThreshold (int 500000000)
   \<and> map (\<lambda>c. snd (snd c)) (fst (interleaved roundRobin (fiveCalls, emptyCache)))
       = [Returned, Returned, Returned, Returned, Returned]
   \<and> map ce_driveFileId (cacheStore (snd (interleaved roundRobin (fiveCalls, emptyCache))))
       = [js ''a'', js ''b'', js ''c'', js ''d'', js ''e'']
   \<and> residentSize (cacheStore (snd (interleaved roundRobin (fiveCalls, emptyCache)))) = 2500000000
   \<and> aboveThreshold (residentSize (cacheStore (snd (interleaved roundRobin (fiveCalls, emptyCache)))))"
  by (simp add: interleaved_def resumeCall_def fiveCalls_def roundRobin_def oneRound_def
      cache_defs js_def)

section \<open>Properties of the message assembly\<close>

lemma getMessageTypeFromMime_not_system: "getMessageTypeFromMime mimeType \<noteq> Ty_system"
  by (simp add: getMessageTypeFromMime_def)

lemma detectMessageType_not_system: "dt_type (detectMessageType h body mediaFiles) \<noteq> Ty_system"
  by (simp add: detectMessageType_def plainText_def Let_def getMessageTypeFromMime_not_system
      split: option.splits prod.splits)

lemma createMessage_system_iff:
  "msg_type (createMessage h m mediaFiles seq) = Ty_system \<longleftrightarrow> mm_isSystemLine m"
  by (simp add: createMessage_def Let_def detectMessageType_not_system)

lemma matchMessageLine_not_system:
  "matchMessageLine h line dateOrder = Some match \<Longrightarrow> \<not> mm_isSystemLine match"
  by (auto simp: matchMessageLine_def split: option.splits)

text \<open>
  C5. A message is of type system exactly when the line classifier flagged its line as a
  system line; a line parsed as \<open>timestamp - Sender: body\<close> (a match of \<open>matchMessageLine\<close>)
  gives a message that is not of type system, whatever its body, also after continuation
  lines have been appended to the body.
\<close>

theorem system_type_only_from_system_line:
  "(msg_type (createMessage h m mediaFiles seq) = Ty_system \<longleftrightarrow> mm_isSystemLine m)
   \<and> (matchMessageLine h line dateOrder = Some match \<longrightarrow>
        msg_type (createMessage h match mediaFiles seq) \<noteq> Ty_system
        \<and> (\<forall>body. msg_type (createMessage h (match\<lparr> mm_content := body \<rparr>) mediaFiles seq)
                    \<noteq> Ty_system))"
  using matchMessageLine_not_system [of h line dateOrder match]
  by (simp add: createMessage_system_iff)


subsection \<open>The text that reaches the message\<close>
























section \<open>Properties of the parser\<close>

text \<open>The three steps of \<open>createMessage\<close> after the type detection leave the sentinel of
  omitted media as it is.\<close>

lemma sentinel_steps:
  "stripEditedMarker (js ''__OMITTED_MEDIA__'') = (js ''__OMITTED_MEDIA__'', False)"
  "extractQuotedMessage (js ''__OMITTED_MEDIA__'') = (js ''__OMITTED_MEDIA__'', None)"
  "cl_isCall (detectCallLog (js ''__OMITTED_MEDIA__'')) = False"
  by (simp_all add: stripEditedMarker_def lastIndexOf_def extractQuotedMessage_def
      detectCallLog_def callRegex_def trim_def rx_defs Let_def split del: if_split)

lemma omitted_body_dropped:
  assumes "list_ex (\<lambda>e. rxTest e (normalizeWaText (mm_content m))) omittedRegexes"
    and "\<not> mm_isSystemLine m"
  shows "msg_type (createMessage h m mediaFiles seq) = Ty_text
       \<and> content (createMessage h m mediaFiles seq) = js ''__OMITTED_MEDIA__''
       \<and> \<not> keepMessage (createMessage h m mediaFiles seq)"
proof -
  from assms(1) have d: "detectMessageType h (mm_content m) mediaFiles = plainText (js ''__OMITTED_MEDIA__'')"
    by (simp add: detectMessageType_def Let_def)
  have ty: "msg_type (createMessage h m mediaFiles seq) = Ty_text"
    and co: "content (createMessage h m mediaFiles seq) = js ''__OMITTED_MEDIA__''"
    using assms(2) by (simp_all add: createMessage_def Let_def d plainText_def sentinel_steps)
  then show ?thesis
    by (simp add: keepMessage_def)
qed

lemma chatOf_messages: "chat_messages (cr_chat (chatOf h fileName chatText pm)) = fst pm"
  by (simp add: chatOf_def Let_def split del: if_split)

lemma parseChatFile_typed:
  "parseChatFile h typeError (Some fileName) (Some chatText) (Some mediaFiles)
     = Inr (chatOf h fileName chatText (parseMessages h chatText mediaFiles []))"
  by (simp add: parseChatFile_def parseChatBody_def)

lemma parseMessagesUnindexed_kept:
  assumes "parseMessagesUnindexed h chatText errors = Inr pm"
  shows "\<forall>msg \<in> set (fst pm). keepMessage msg"
proof -
  from assms obtain xs where "fst pm = filter keepMessage xs"
    by (auto simp: parseMessagesUnindexed_def Let_def simp del: filter.simps filter_append
        split: sum.splits option.splits)
  then show ?thesis
    by simp
qed

lemma parseChatFile_kept:
  assumes "parseChatFile h typeError fileName body mediaFiles = Inr result"
  shows "\<forall>msg \<in> set (chat_messages (cr_chat result)). keepMessage msg"
proof (cases "parseChatBody h typeError fileName body mediaFiles")
  case (Inl thrown)
  with assms show ?thesis
    by (cases thrown) (auto simp: parseChatFile_def split: option.splits)
next
  case (Inr returned)
  with assms have result: "parseChatBody h typeError fileName body mediaFiles = Inr result"
    by (simp add: parseChatFile_def)
  then obtain name chatText where args: "fileName = Some name" "body = Some chatText"
    by (auto simp: parseChatBody_def split: option.splits)
  show ?thesis
  proof (cases mediaFiles)
    case (Some files)
    with result args show ?thesis
      by (auto simp: parseChatBody_def chatOf_messages parseMessages_def Let_def)
  next
    case None
    with result args obtain pm where pm: "parseMessagesUnindexed h chatText [] = Inr pm"
      and "result = chatOf h name chatText pm"
      by (auto simp: parseChatBody_def split: sum.splits)
    with parseMessagesUnindexed_kept [OF pm] show ?thesis
      by (simp add: chatOf_messages)
  qed
qed

lemma keepMessage_iff:
  "keepMessage =
     (\<lambda>msg. msg_type msg \<noteq> Ty_text
            \<or> (content msg \<noteq> js ''__OMITTED_MEDIA__'' \<and> trim (content msg) \<noteq> []))"
  by (rule ext) (simp add: keepMessage_def)

text \<open>
  C10. Every message of type text in the chat that \<open>parseChatFile\<close> returns has non-empty
  content after trimming and is not the omitted-media sentinel, whatever the arguments;
  for arguments of the declared types the messages returned are the assembled messages
  without the text messages that are the sentinel or empty after trimming, so media, call
  and system messages stay whatever their content; and a user line whose body is an
  omitted-media placeholder such as \<open>image omitted\<close> gives the sentinel and is dropped.
\<close>

theorem parsed_text_messages_nonempty:
  "(\<forall>result. parseChatFile h typeError fileName body mediaFiles = Inr result \<longrightarrow>
      (\<forall>msg \<in> set (chat_messages (cr_chat result)).
         msg_type msg = Ty_text \<longrightarrow>
           trim (content msg) \<noteq> [] \<and> content msg \<noteq> js ''__OMITTED_MEDIA__''))
   \<and> (\<exists>result. parseChatFile h typeError (Some name) (Some chatText) (Some files) = Inr result
        \<and> chat_messages (cr_chat result)
          = filter (\<lambda>msg. msg_type msg \<noteq> Ty_text
                         \<or> (content msg \<noteq> js ''__OMITTED_MEDIA__'' \<and> trim (content msg) \<noteq> []))
              (fst (assembleMessages h chatText files [])))
   \<and> (list_ex (\<lambda>e. rxTest e (normalizeWaText (mm_content m))) omittedRegexes
        \<and> \<not> mm_isSystemLine m \<longrightarrow>
        content (createMessage h m files seq) = js ''__OMITTED_MEDIA__''
        \<and> \<not> keepMessage (createMessage h m files seq))"
proof (intro conjI)
  show "\<forall>result. parseChatFile h typeError fileName body mediaFiles = Inr result \<longrightarrow>
      (\<forall>msg \<in> set (chat_messages (cr_chat result)).
         msg_type msg = Ty_text \<longrightarrow>
           trim (content msg) \<noteq> [] \<and> content msg \<noteq> js ''__OMITTED_MEDIA__'')"
    using parseChatFile_kept [of h typeError fileName body mediaFiles]
    by (auto simp: keepMessage_def split: if_splits)
next
  show "\<exists>result. parseChatFile h typeError (Some name) (Some chatText) (Some files) = Inr result
        \<and> chat_messages (cr_chat result)
          = filter (\<lambda>msg. msg_type msg \<noteq> Ty_text
                         \<or> (content msg \<noteq> js ''__OMITTED_MEDIA__'' \<and> trim (content msg) \<noteq> []))
              (fst (assembleMessages h chatText files []))"
    by (simp add: parseChatFile_typed chatOf_messages parseMessages_def Let_def keepMessage_iff)
next
  show "list_ex (\<lambda>e. rxTest e (normalizeWaText (mm_content m))) omittedRegexes
        \<and> \<not> mm_isSystemLine m \<longrightarrow>
        content (createMessage h m files seq) = js ''__OMITTED_MEDIA__''
        \<and> \<not> keepMessage (createMessage h m files seq)"
    using omitted_body_dropped [of m h files seq] by blast
qed

subsection \<open>What the parser throws\<close>

text \<open>
  A message that does not look up media is the same for every attachment index, and the
  loop for an index of another type, as long as it has not thrown, is the loop for the
  empty index.
\<close>

lemma createMessage_unindexed:
  assumes "\<not> looksUpMedia (mm_content match)"
  shows "createMessage h match mediaFiles seq = createMessage h match [] seq"
proof -
  from assms have "detectMessageType h (mm_content match) mediaFiles
      = detectMessageType h (mm_content match) []"
    by (auto simp: looksUpMedia_def detectMessageType_def Let_def split: option.splits)
  then show ?thesis
    by (simp add: createMessage_def)
qed






section \<open>A worked example\<close>

text \<open>
  Evaluation of the parser on concrete lines, on the host \<open>utcHost\<close>. The lines are those
  of a chat between John and the local user Rajiv with one system line.
\<close>

lemma utcHost_simps:
  "toLowerCase utcHost = map asciiLower"
  "mkDate utcHost = utcDate"
  "dateNow utcHost = 1700000000000"
  by (simp_all add: utcHost_def)

lemmas line_defs =
  matchMessageLine_def matchSystemLine_def parseTimestamp_def timeRegex_def
  senderPrefixRegex_def androidRegex_def iosRegex_def europeanRegex_def androidSystem_def
  iosSystem_def datePat_def clockPat_def meridiemPat_def dash_def notColon_def
  normalizeWaText_def trim_def isInvisibleMark_def asciiUpper_def parseInt_def
  utcHost_simps Let_def

lemmas detect_defs =
  detectMessageType_def omittedRegexes_def mediaPatterns_def waFileRegex_def
  mediaNotFound_def normalizeWaText_def trim_def isInvisibleMark_def Let_def

lemmas message_defs =
  createMessage_def plainText_def stripEditedMarker_def lastIndexOf_def
  extractQuotedMessage_def quoteRegex_def detectCallLog_def callRegex_def answeredCall_def
  isMeSender_def normalizePhone_def displayName_def phoneNumbers_def generateMessageId_def
  underscored_def show_int_def show_nat.simps trim_def utcHost_simps Let_def

lemma ex_dates:
  "utcDate 2023 11 31 23 45 0 = 1704066300000"
  "utcDate 2023 11 31 23 46 0 = 1704066360000"
  "utcDate 2023 11 31 23 47 0 = 1704066420000"
  "utcDate 2023 11 31 23 48 0 = 1704066480000"
  by (simp_all add: utcDate_def daysFromCivil_def Let_def)

lemma ex_line1:
  "matchMessageLine utcHost (js ''12/31/2023, 11:45 PM - John: They added value to my life'') MDY
     = Some \<lparr> mm_timestamp = 1704066300000, mm_sender = js ''John'',
              mm_content = js ''They added value to my life'',
              mm_line = js ''12/31/2023, 11:45 PM - John: They added value to my life'',
              mm_isSystemLine = False \<rparr>"
  by (simp add: line_defs rx_defs ex_dates split del: if_split)

lemma ex_detect1:
  "detectMessageType utcHost (js ''They added value to my life'') []
     = plainText (js ''They added value to my life'')"
  by (simp add: detect_defs rx_defs split del: if_split)

lemma ex_message1:
  "createMessage utcHost
     \<lparr> mm_timestamp = 1704066300000, mm_sender = js ''John'',
       mm_content = js ''They added value to my life'',
       mm_line = js ''12/31/2023, 11:45 PM - John: They added value to my life'',
       mm_isSystemLine = False \<rparr> [] 0
   = (textMessage (js ''John'') 1704066300000 (js ''They added value to my life''))
       \<lparr> msg_id := js ''msg_1704066300000_0__ohn'' \<rparr>"
  by (simp add: ex_detect1 [unfolded js_def, simplified] message_defs textMessage_def rx_defs
      split del: if_split)

lemma ex_line2:
  "matchMessageLine utcHost (js ''12/31/2023, 11:46 PM - Rajiv: image omitted'') MDY
     = Some \<lparr> mm_timestamp = 1704066360000, mm_sender = js ''Rajiv'',
              mm_content = js ''image omitted'',
              mm_line = js ''12/31/2023, 11:46 PM - Rajiv: image omitted'',
              mm_isSystemLine = False \<rparr>"
  by (simp add: line_defs rx_defs ex_dates split del: if_split)

lemma ex_line3_user:
  "matchMessageLine utcHost (js ''12/31/2023, 11:47 PM - Encrypted chat'') MDY = None"
  by (simp add: line_defs rx_defs ex_dates split del: if_split)

lemma ex_line3:
  "matchSystemLine utcHost (js ''12/31/2023, 11:47 PM - Encrypted chat'') MDY
     = Some \<lparr> mm_timestamp = 1704066420000, mm_sender = js ''System'',
              mm_content = js ''Encrypted chat'',
              mm_line = js ''12/31/2023, 11:47 PM - Encrypted chat'',
              mm_isSystemLine = True \<rparr>"
  by (simp add: line_defs rx_defs ex_dates split del: if_split)

lemma ex_detect2:
  "detectMessageType utcHost (js ''image omitted'') [] = plainText (js ''__OMITTED_MEDIA__'')"
  by (simp add: detect_defs rx_defs split del: if_split)

lemma ex_detect3:
  "detectMessageType utcHost (js ''Encrypted chat'') [] = plainText (js ''Encrypted chat'')"
  by (simp add: detect_defs rx_defs split del: if_split)

lemma ex_message2:
  "createMessage utcHost
     \<lparr> mm_timestamp = 1704066360000, mm_sender = js ''Rajiv'',
       mm_content = js ''image omitted'',
       mm_line = js ''12/31/2023, 11:46 PM - Rajiv: image omitted'',
       mm_isSystemLine = False \<rparr> [] (Suc 0)
   = (textMessage (js ''Rajiv'') 1704066360000 (js ''__OMITTED_MEDIA__''))
       \<lparr> msg_id := js ''msg_1704066360000_1__ajiv'', isOutgoing := True \<rparr>"
  by (simp add: ex_detect2 [unfolded js_def, simplified] message_defs textMessage_def rx_defs
      split del: if_split)

lemma ex_message3:
  "createMessage utcHost
     \<lparr> mm_timestamp = 1704066420000, mm_sender = js ''System'',
       mm_content = js ''Encrypted chat'',
       mm_line = js ''12/31/2023, 11:47 PM - Encrypted chat'',
       mm_isSystemLine = True \<rparr> [] (Suc (Suc 0))
   = (textMessage (js ''System'') 1704066420000 (js ''Encrypted chat''))
       \<lparr> msg_id := js ''msg_1704066420000_2__ystem'', msg_type := Ty_system \<rparr>"
  by (simp add: ex_detect3 [unfolded js_def, simplified] message_defs textMessage_def rx_defs
      split del: if_split)

lemma ex_line4:
  "matchMessageLine utcHost (js ''12/31/2023, 11:48 PM - Rajiv: ok'') MDY
     = Some \<lparr> mm_timestamp = 1704066480000, mm_sender = js ''Rajiv'',
              mm_content = js ''ok'',
              mm_line = js ''12/31/2023, 11:48 PM - Rajiv: ok'',
              mm_isSystemLine = False \<rparr>"
  by (simp add: line_defs rx_defs ex_dates split del: if_split)

lemma ex_detect4:
  "detectMessageType utcHost (js ''ok'') [] = plainText (js ''ok'')"
  by (simp add: detect_defs rx_defs split del: if_split)

lemma ex_message4:
  "createMessage utcHost
     \<lparr> mm_timestamp = 1704066480000, mm_sender = js ''Rajiv'',
       mm_content = js ''ok'',
       mm_line = js ''12/31/2023, 11:48 PM - Rajiv: ok'',
       mm_isSystemLine = False \<rparr> [] (Suc (Suc (Suc 0)))
   = (textMessage (js ''Rajiv'') 1704066480000 (js ''ok''))
       \<lparr> msg_id := js ''msg_1704066480000_3__ajiv'', isOutgoing := True \<rparr>"
  by (simp add: ex_detect4 [unfolded js_def, simplified] message_defs textMessage_def rx_defs
      split del: if_split)

lemma ex_split:
  "splitOn 10 exampleChat =
     [js ''12/31/2023, 11:45 PM - John: They added value to my life'',
      js ''12/31/2023, 11:46 PM - Rajiv: image omitted'',
      js ''12/31/2023, 11:47 PM - Encrypted chat'',
      js ''12/31/2023, 11:48 PM - Rajiv: ok'']"
  by (simp add: exampleChat_def js_def split del: if_split)

lemma ex_infer:
  "inferDateOrder
     [js ''12/31/2023, 11:45 PM - John: They added value to my life'',
      js ''12/31/2023, 11:46 PM - Rajiv: image omitted'',
      js ''12/31/2023, 11:47 PM - Encrypted chat'',
      js ''12/31/2023, 11:48 PM - Rajiv: ok''] = MDY"
  by (simp add: inferDateOrder_def inferStep_def dateStartRegex_def parseInt_def rx_defs Let_def
      split del: if_split)

lemmas ex_steps =
  ex_infer [unfolded js_def, simplified]
  ex_line1 [unfolded js_def, simplified] ex_message1 [unfolded js_def, simplified]
  ex_line2 [unfolded js_def, simplified] ex_message2 [unfolded js_def, simplified]
  ex_line3_user [unfolded js_def, simplified]
  ex_line3 [unfolded js_def, simplified] ex_message3 [unfolded js_def, simplified]
  ex_line4 [unfolded js_def, simplified] ex_message4 [unfolded js_def, simplified]

lemma ex_assemble:
  "assembleMessages utcHost exampleChat [] [] =
     ([(textMessage (js ''John'') 1704066300000 (js ''They added value to my life''))
         \<lparr> msg_id := js ''msg_1704066300000_0__ohn'' \<rparr>,
       (textMessage (js ''Rajiv'') 1704066360000 (js ''__OMITTED_MEDIA__''))
         \<lparr> msg_id := js ''msg_1704066360000_1__ajiv'', isOutgoing := True \<rparr>,
       (textMessage (js ''System'') 1704066420000 (js ''Encrypted chat''))
         \<lparr> msg_id := js ''msg_1704066420000_2__ystem'', msg_type := Ty_system \<rparr>,
       (textMessage (js ''Rajiv'') 1704066480000 (js ''ok''))
         \<lparr> msg_id := js ''msg_1704066480000_3__ajiv'', isOutgoing := True \<rparr>],
      [])"
  by (simp add: assembleMessages_def ex_split parseStep_def ex_steps normalizeWaText_def trim_def
      isInvisibleMark_def isWhiteSpace_def js_def Let_def enumerate_simps split del: if_split)

lemma ex_chat:
  "parseChatFile utcHost typeError (Some (js ''WhatsApp Chat with John.txt'')) (Some exampleChat)
       (Some []) =
     Inr \<lparr> cr_chat =
         \<lparr> chat_id = js ''chat_john_1700000000000'', chat_name = js ''John'',
           chat_participants =
             [\<lparr> p_id = js ''user_john'', p_name = js ''John'', p_color = js ''#00a884'' \<rparr>,
              \<lparr> p_id = js ''user_rajiv'', p_name = js ''Rajiv'', p_color = js ''#ff6b6b'' \<rparr>],
           chat_messages =
             [(textMessage (js ''John'') 1704066300000 (js ''They added value to my life''))
                 \<lparr> msg_id := js ''msg_1704066300000_0__ohn'' \<rparr>,
              (textMessage (js ''System'') 1704066420000 (js ''Encrypted chat''))
                 \<lparr> msg_id := js ''msg_1704066420000_2__ystem'', msg_type := Ty_system \<rparr>,
              (textMessage (js ''Rajiv'') 1704066480000 (js ''ok''))
                 \<lparr> msg_id := js ''msg_1704066480000_3__ajiv'', isOutgoing := True \<rparr>],
           chat_isGroup = False \<rparr>,
       cr_errors = [] \<rparr>"
  by (simp add: parseChatFile_typed chatOf_def parseMessages_def
      ex_assemble [unfolded js_def exampleChat_def, simplified]
      keepMessage_def textMessage_def extractChatName_def extractParticipants_def
      participantStep_def generateParticipantColors_def generateParticipantId_def
      generateChatId_def detectGroupIndicators_def deriveChatNameFromContent_def
      isMeSender_def normalizePhone_def displayName_def phoneNumbers_def underscored_def
      show_int_def show_nat.simps trim_def utcHost_simps exampleChat_def rx_defs Let_def
      split del: if_split)




lemmas strategy_defs =
  exactPathMatch_def baseNameMatch_def substringMatch_def numericIdMatch_def
  datePortionMatch_def normalizedNameOf_def baseFileNameOf_def numericIdOf_def
  datePortionOf_def numericIdRegex_def datePortionRegex_def lastSegment_def endsWith_def
  trim_def utcHost_simps Let_def


lemma ex_media_detect:
  "detectMessageType utcHost (js ''<attached: IMG-9999-WA0001.jpg>'')
     [\<lparr> mf_fileName = js ''media/photo.png'', mf_url = js ''blob:1'',
        mf_mimeType = js ''image/png'', mf_size = Some 3,
        mf_driveFileId = None, mf_thumbnailLink = None \<rparr>]
   = plainText (js ''[Media not found: IMG-9999-WA0001.jpg]'')"
  by (simp add: detect_defs findMediaFile_def strategy_defs rx_defs split del: if_split)

lemma ex_media_message:
  "createMessage utcHost
     \<lparr> mm_timestamp = 1704066300000, mm_sender = js ''John'',
       mm_content = js ''<attached: IMG-9999-WA0001.jpg>'',
       mm_line = js ''12/31/2023, 11:45 PM - John: <attached: IMG-9999-WA0001.jpg>'',
       mm_isSystemLine = False \<rparr>
     [\<lparr> mf_fileName = js ''media/photo.png'', mf_url = js ''blob:1'',
        mf_mimeType = js ''image/png'', mf_size = Some 3,
        mf_driveFileId = None, mf_thumbnailLink = None \<rparr>] 0
   = (textMessage (js ''John'') 1704066300000 (js ''[Media not found: IMG-9999-WA0001.jpg]''))
       \<lparr> msg_id := js ''msg_1704066300000_0__ohn'' \<rparr>"
  by (simp add: ex_media_detect [unfolded js_def, simplified] message_defs textMessage_def rx_defs
      split del: if_split)












section \<open>The claims at concrete inputs\<close>

text \<open>
  C5, at the specification's input: the line of John with the word \<open>added\<close> is parsed as a
  user line and gives a text message; in the example chat, which has two participants and
  is not a group although its text contains \<open>added\<close>, the only system message is the one of
  the system line.
\<close>

theorem system_type_only_from_system_line_witness:
  "matchMessageLine utcHost (js ''12/31/2023, 11:45 PM - John: They added value to my life'') MDY
     = Some \<lparr> mm_timestamp = 1704066300000, mm_sender = js ''John'',
              mm_content = js ''They added value to my life'',
              mm_line = js ''12/31/2023, 11:45 PM - John: They added value to my life'',
              mm_isSystemLine = False \<rparr>
   \<and> msg_type (createMessage utcHost
         \<lparr> mm_timestamp = 1704066300000, mm_sender = js ''John'',
           mm_content = js ''They added value to my life'',
           mm_line = js ''12/31/2023, 11:45 PM - John: They added value to my life'',
           mm_isSystemLine = False \<rparr> [] 0) \<noteq> Ty_system
   \<and> msg_type (createMessage utcHost
         \<lparr> mm_timestamp = 1704066300000, mm_sender = js ''John'',
           mm_content = js ''They added value to my life'',
           mm_line = js ''12/31/2023, 11:45 PM - John: They added value to my life'',
           mm_isSystemLine = False \<rparr> [] 0) = Ty_text
   \<and> (case parseChatFile utcHost notAFunction (Some (js ''WhatsApp Chat with John.txt''))
              (Some exampleChat) (Some []) of
         Inl e \<Rightarrow> False
       | Inr result \<Rightarrow>
           length (chat_participants (cr_chat result)) = 2
           \<and> chat_isGroup (cr_chat result) = False
           \<and> map msg_type (chat_messages (cr_chat result)) = [Ty_text, Ty_system, Ty_text])"
proof -
  let ?line = "js ''12/31/2023, 11:45 PM - John: They added value to my life''"
  let ?m = "\<lparr> mm_timestamp = 1704066300000, mm_sender = js ''John'',
              mm_content = js ''They added value to my life'',
              mm_line = js ''12/31/2023, 11:45 PM - John: They added value to my life'',
              mm_isSystemLine = False \<rparr>"
  have user: "msg_type (createMessage utcHost ?m [] 0) \<noteq> Ty_system"
    using system_type_only_from_system_line [of utcHost ?m "[]" 0 ?line MDY ?m] ex_line1
    by blast
  have ty: "msg_type (createMessage utcHost ?m [] 0) = Ty_text"
    by (simp add: ex_message1 textMessage_def)
  have chat: "(case parseChatFile utcHost notAFunction (Some (js ''WhatsApp Chat with John.txt''))
              (Some exampleChat) (Some []) of
         Inl e \<Rightarrow> False
       | Inr result \<Rightarrow>
           length (chat_participants (cr_chat result)) = 2
           \<and> chat_isGroup (cr_chat result) = False
           \<and> map msg_type (chat_messages (cr_chat result)) = [Ty_text, Ty_system, Ty_text])"
    by (simp add: ex_chat textMessage_def)
  from ex_line1 user ty chat show ?thesis
    by (simp only: simp_thms)
qed

text \<open>
  C10, at the example chat: of the four assembled messages the omitted image of the local
  user is dropped; the text messages that stay have content, and the system message stays.
\<close>

theorem parsed_text_messages_nonempty_witness:
  "map content (fst (assembleMessages utcHost exampleChat [] []))
     = [js ''They added value to my life'', js ''__OMITTED_MEDIA__'', js ''Encrypted chat'', js ''ok'']
   \<and> (case parseChatFile utcHost notAFunction (Some (js ''WhatsApp Chat with John.txt''))
              (Some exampleChat) (Some []) of
         Inl e \<Rightarrow> []
       | Inr result \<Rightarrow> map content (chat_messages (cr_chat result)))
       = [js ''They added value to my life'', js ''Encrypted chat'', js ''ok'']
   \<and> (case parseChatFile utcHost notAFunction (Some (js ''WhatsApp Chat with John.txt''))
              (Some exampleChat) (Some []) of
         Inl e \<Rightarrow> []
       | Inr result \<Rightarrow> map msg_type (chat_messages (cr_chat result)))
       = [Ty_text, Ty_system, Ty_text]"
proof -
  have all: "map content (fst (assembleMessages utcHost exampleChat [] []))
     = [js ''They added value to my life'', js ''__OMITTED_MEDIA__'', js ''Encrypted chat'', js ''ok'']"
    by (simp add: ex_assemble textMessage_def)
  from parsed_text_messages_nonempty
    [where h = utcHost and typeError = notAFunction
       and name = "js ''WhatsApp Chat with John.txt''" and chatText = exampleChat and files = "[]"]
  obtain result
    where returned: "parseChatFile utcHost notAFunction (Some (js ''WhatsApp Chat with John.txt''))
              (Some exampleChat) (Some []) = Inr result"
      and "chat_messages (cr_chat result)
          = filter (\<lambda>msg. msg_type msg \<noteq> Ty_text
                         \<or> (content msg \<noteq> js ''__OMITTED_MEDIA__'' \<and> trim (content msg) \<noteq> []))
              (fst (assembleMessages utcHost exampleChat [] []))"
    by blast
  then have kept: "map content (chat_messages (cr_chat result))
       = [js ''They added value to my life'', js ''Encrypted chat'', js ''ok'']"
    "map msg_type (chat_messages (cr_chat result)) = [Ty_text, Ty_system, Ty_text]"
    by (simp_all add: ex_assemble textMessage_def trim_def isWhiteSpace_def js_def
        split del: if_split)
  from all kept show ?thesis
    by (simp add: returned)
qed






end
